theory Spec2Isabelle
  imports Main "HOL-Library.Word" "HOL-Library.Multiset" "HOL-Library.Sublist"
    "HOL-Library.Char_ord" "HOL-Library.List_Lexorder"
begin

unbundle bit_operations_syntax

section \<open>C strings and the stdio calls the server uses\<close>

text \<open>
  A C string is modelled by the list of its bytes before the terminating NUL. A buffer
  filled from a stream may hold NUL bytes of its own; \<open>c_str\<close> is what the string
  functions of the C library then see of it.
\<close>

abbreviation NUL :: char where "NUL \<equiv> CHR 0x00"
abbreviation TAB :: char where "TAB \<equiv> CHR 0x09"
abbreviation LF :: char where "LF \<equiv> CHR 0x0A"
abbreviation VT :: char where "VT \<equiv> CHR 0x0B"
abbreviation FF :: char where "FF \<equiv> CHR 0x0C"
abbreviation CR :: char where "CR \<equiv> CHR 0x0D"
abbreviation DQ :: char where "DQ \<equiv> CHR 0x22"

definition c_str :: "string \<Rightarrow> string" where
  "c_str raw = takeWhile (\<lambda>c. c \<noteq> NUL) raw"

text \<open>\<open>isspace\<close> in the C locale (the server never calls \<open>setlocale\<close>).\<close>

definition isspace :: "char \<Rightarrow> bool" where
  "isspace c = (c = CHR '' '' \<or> c = TAB \<or> c = LF \<or> c = VT \<or> c = FF \<or> c = CR)"

text \<open>utils.c, \<open>skip_whitespace\<close>: \<open>while (isspace(*s)) s++;\<close>\<close>

definition skip_whitespace :: "string \<Rightarrow> string" where
  "skip_whitespace s = dropWhile isspace s"

text \<open>
  \<open>fgets(buffer, n, stream)\<close>: at most \<open>n - 1\<close> bytes, stopping after a newline.
  A stream is the list of the bytes still unread. The result is the bytes stored in the
  buffer and the stream that is left; \<open>None\<close> is the NULL of end of file. The server
  always passes \<open>BUFSIZ\<close>, which the C standard puts at 256 or more; a size below 2, which
  leaves no room for a byte, is given the result NULL here.
\<close>

fun read_line :: "nat \<Rightarrow> string \<Rightarrow> string \<times> string" where
  "read_line 0 s = ([], s)"
| "read_line (Suc k) [] = ([], [])"
| "read_line (Suc k) (c # s) =
     (if c = LF then ([c], s)
      else (case read_line k s of (l, rest) \<Rightarrow> (c # l, rest)))"

definition fgets :: "nat \<Rightarrow> string \<Rightarrow> (string \<times> string) option" where
  "fgets n s = (if n < 2 \<or> s = [] then None else Some (read_line (n - 1) s))"

text \<open>
  \<open>strtok(str, delim)\<close> on the C string at \<open>str\<close>: skip the leading delimiters; no
  byte left is NULL; otherwise the token runs to the next delimiter, which is overwritten
  with NUL, and the saved pointer is the byte after it. The result is the token and the
  C string at the saved pointer. \<open>strtok(NULL, delim)\<close> is \<open>strtok\<close> of that string.
\<close>

definition strtok :: "string \<Rightarrow> string \<Rightarrow> (string \<times> string) option" where
  "strtok s delim =
     (let s' = dropWhile (\<lambda>c. c \<in> set delim) s in
      if s' = [] then None
      else Some (takeWhile (\<lambda>c. c \<notin> set delim) s',
                 drop 1 (dropWhile (\<lambda>c. c \<notin> set delim) s')))"

text \<open>
  The NUL that \<open>strtok\<close> writes also cuts every other C string that runs over that byte.
  \<open>strtok_cut s delim\<close> is the C string at \<open>s\<close> once \<open>strtok(s, delim)\<close> has returned:
  unchanged when no token was found, else cut at the end of the token.
\<close>

definition strtok_cut :: "string \<Rightarrow> string \<Rightarrow> string" where
  "strtok_cut s delim =
     (let k = length (takeWhile (\<lambda>c. c \<in> set delim) s);
          n = length (takeWhile (\<lambda>c. c \<notin> set delim) (drop k s))
      in if n = 0 then s else take (k + n) s)"

text \<open>\<open>strncmp(a, b, n) == 0\<close> on C strings.\<close>

definition strncmp_eq :: "string \<Rightarrow> string \<Rightarrow> nat \<Rightarrow> bool" where
  "strncmp_eq a b n = (take n a = take n b)"

text \<open>\<open>snprintf(buf, n, ...)\<close> with a format of \<open>%s\<close> only keeps the first \<open>n - 1\<close> bytes of
  the strings put together.\<close>

definition snprintf :: "nat \<Rightarrow> string \<Rightarrow> string" where
  "snprintf n s = take (n - 1) s"

section \<open>What main.h and the platform supply\<close>

text \<open>
  main.h is not among the sources. Its macros \<open>WHITESPACE\<close> and \<open>chomp\<close>, and
  \<open>BUFSIZ\<close> of stdio.h, are parameters of the model. \<open>chomp\<close> is applied to a buffer and
  is taken as a function on the C string the buffer holds.

  Modelled from the spec: the macro \<open>streq\<close> of main.h, which the sources use to compare
  an extension, a header name and a directory entry with a given string. The spec calls
  it an exact, case-sensitive match: it is the equality of the two strings. The macros
  \<open>log\<close> and \<open>debug\<close> only write to the log and are left out.
\<close>

record macros =
  BUFSIZ :: nat
  WHITESPACE :: string
  chomp :: "string \<Rightarrow> string"

text \<open>The globals of main.c. \<open>main\<close> replaces \<open>RootPath\<close> by its \<open>realpath\<close> before serving.\<close>

record config =
  Port :: string
  MimeTypesPath :: string
  DefaultMimeType :: string
  RootPath :: string

text \<open>
  Modelled from the spec: the enumeration \<open>Status\<close> of main.h, which is not among the
  sources. The data model of the spec lists OK, BAD_REQUEST, NOT_FOUND,
  INTERNAL_SERVER_ERROR and a fallback; utils.c and handler.c name the first four, and
  \<open>http_status_string\<close> has a last branch for any other value.
\<close>

datatype Status =
  HTTP_STATUS_OK
| HTTP_STATUS_BAD_REQUEST
| HTTP_STATUS_NOT_FOUND
| HTTP_STATUS_INTERNAL_SERVER_ERROR
| HTTP_STATUS_UNKNOWN

text \<open>
  The socket stream \<open>r->file\<close>: the bytes the client sent that are still unread, and the
  bytes the program has handed to the stream so far, in the order of the calls. What the
  C library does with them afterwards (its buffer, when it is flushed, what the peer
  receives) is not modelled: a statement on \<open>sent\<close> is a statement on the bytes the
  program writes.
\<close>

record sockfile =
  unread :: string
  sent :: string

text \<open>\<open>fputs\<close> and \<open>fprintf\<close> on the socket; the program never reads what they return.\<close>

definition fputs :: "string \<Rightarrow> sockfile \<Rightarrow> sockfile" where
  "fputs data f = f\<lparr>sent := sent f @ data\<rparr>"

text \<open>
  Modelled from the spec: the structure \<open>Request\<close> of main.h, which is not among the
  sources, with the fields the data model of the spec lists and the sources use
  (\<open>rfile\<close> and \<open>rmethod\<close> are \<open>r->file\<close> and \<open>r->method\<close>). \<open>path\<close> is NULL until it is
  resolved; the headers are a list, the first node of the linked list first.
\<close>

record Request =
  rfile :: sockfile
  host :: string
  port :: string
  rmethod :: string
  uri :: string
  path :: "string option"
  query :: string
  headers :: "(string \<times> string) list"

text \<open>Undefined behaviour the code can reach: the model stops there.\<close>

datatype fault = NullPointer | OutOfBounds

section \<open>Progress of the reading calls\<close>

lemma read_line_append: "read_line k s = (l, rest) \<Longrightarrow> l @ rest = s"
  by (induction k s arbitrary: l rest rule: read_line.induct)
     (auto split: if_splits prod.splits)

lemma read_line_nonempty: "0 < k \<Longrightarrow> s \<noteq> [] \<Longrightarrow> fst (read_line k s) \<noteq> []"
  by (cases k; cases s) (auto split: prod.splits)

lemma fgets_append: "fgets n s = Some (l, rest) \<Longrightarrow> l @ rest = s"
  by (auto simp: fgets_def read_line_append split: if_splits)

lemma c_str_length_le: "length (c_str raw) \<le> length raw"
  by (simp add: c_str_def length_takeWhile_le)

lemma c_str_id: "NUL \<notin> set s \<Longrightarrow> c_str s = s"
  by (auto simp: c_str_def takeWhile_eq_all_conv)

lemma fgets_shorter:
  assumes "fgets n s = Some (raw, rest)"
  shows "length rest < length s"
proof -
  from assms have n: "0 < n - 1" and s: "s \<noteq> []" and r: "read_line (n - 1) s = (raw, rest)"
    by (auto simp: fgets_def split: if_splits)
  from read_line_nonempty [OF n s] r have "raw \<noteq> []" by simp
  moreover from assms have "raw @ rest = s" by (rule fgets_append)
  ultimately show ?thesis by auto
qed

lemma strtok_shorter:
  assumes "strtok s delim = Some (tok, saved)"
  shows "length saved < length s"
proof -
  let ?s' = "dropWhile (\<lambda>c. c \<in> set delim) s"
  from assms have ne: "?s' \<noteq> []"
    and sv: "saved = drop 1 (dropWhile (\<lambda>c. c \<notin> set delim) ?s')"
    by (auto simp: strtok_def Let_def split: if_splits)
  from ne obtain a list where al: "?s' = a # list" by (cases ?s') auto
  have "a \<notin> set delim" using hd_dropWhile [of "\<lambda>c. c \<in> set delim" s] ne al by simp
  then have "dropWhile (\<lambda>c. c \<notin> set delim) ?s' = dropWhile (\<lambda>c. c \<notin> set delim) list"
    using al by simp
  moreover have "length (dropWhile (\<lambda>c. c \<notin> set delim) list) \<le> length list"
    by (rule length_dropWhile_le)
  moreover have "length ?s' \<le> length s" by (rule length_dropWhile_le)
  ultimately show ?thesis using sv al by simp
qed

section \<open>request.c\<close>

text \<open>
  \<open>parse_request_method\<close>. The result is the return value and the request after the
  call. \<open>strdup(NULL)\<close> is undefined: it is the fault \<open>NullPointer\<close>.
\<close>

definition parse_request_method :: "macros \<Rightarrow> Request \<Rightarrow> fault + (int \<times> Request)" where
  "parse_request_method m r =
     (case fgets (BUFSIZ m) (unread (rfile r)) of
        None \<Rightarrow> Inr (-1, r)
      | Some (raw, rest) \<Rightarrow>
          let r1 = r\<lparr>rfile := (rfile r)\<lparr>unread := rest\<rparr>\<rparr>;
              buffer = c_str raw
          in (case strtok buffer [CHR '' '', TAB, LF] of
                None \<Rightarrow> Inr (-1, r1)
              | Some (method', saved) \<Rightarrow>
                 (case strtok saved [CHR '' '', TAB, LF] of
                    None \<Rightarrow> Inr (-1, r1)
                  | Some (uri', saved') \<Rightarrow>
                      if CHR ''?'' \<in> set uri' then
                        let q0 = drop 1 (dropWhile (\<lambda>c. c \<noteq> CHR ''?'') uri');
                            query' = map_option fst (strtok q0 [CHR ''#'', CHR '' '', LF, TAB]);
                            uri_mem = takeWhile (\<lambda>c. c \<noteq> CHR ''?'') uri' @ [CHR ''?'']
                                        @ strtok_cut q0 [CHR ''#'', CHR '' '', LF, TAB];
                            uri'' = map_option fst (strtok uri_mem [CHR ''?''])
                        in (case uri'' of
                              None \<Rightarrow> Inl NullPointer
                            | Some u \<Rightarrow>
                               (case query' of
                                  None \<Rightarrow> Inl NullPointer
                                | Some q \<Rightarrow> Inr (0, r1\<lparr>rmethod := method', uri := u, query := q\<rparr>)))
                      else Inr (0, r1\<lparr>rmethod := method', uri := uri', query := []\<rparr>))))"

text \<open>
  The loop of \<open>parse_request_headers\<close>: \<open>cur\<close> (the local \<open>curr\<close>) is the list built so
  far, newest first (\<open>new->next = curr; curr = new\<close>). The result is \<open>None\<close> at
  \<open>goto fail\<close>, else the list, and the stream that is left.
\<close>

function parse_request_headers_loop ::
  "macros \<Rightarrow> string \<Rightarrow> (string \<times> string) list \<Rightarrow> (string \<times> string) list option \<times> string" where
  "parse_request_headers_loop m s cur =
     (case fgets (BUFSIZ m) s of
        None \<Rightarrow> (Some cur, s)
      | Some (raw, rest) \<Rightarrow>
          if length (c_str raw) > 2 then
            (let buffer = chomp m (c_str raw) in
             if CHR '':'' \<notin> set buffer then (None, rest)
             else
               let name = takeWhile (\<lambda>c. c \<noteq> CHR '':'') buffer;
                   val = skip_whitespace (drop 1 (dropWhile (\<lambda>c. c \<noteq> CHR '':'') buffer))
               in parse_request_headers_loop m rest ((name, val) # cur))
          else (Some cur, rest))"
  by pat_completeness auto
termination
  by (relation "measure (\<lambda>(m, s, cur). length s)") (auto dest: fgets_shorter)

definition parse_request_headers :: "macros \<Rightarrow> Request \<Rightarrow> int \<times> Request" where
  "parse_request_headers m r =
     (case parse_request_headers_loop m (unread (rfile r)) [] of
        (None, rest) \<Rightarrow> (-1, r\<lparr>rfile := (rfile r)\<lparr>unread := rest\<rparr>\<rparr>)
      | (Some hs, rest) \<Rightarrow> (0, r\<lparr>rfile := (rfile r)\<lparr>unread := rest\<rparr>, headers := hs\<rparr>))"

definition parse_request :: "macros \<Rightarrow> Request \<Rightarrow> fault + (int \<times> Request)" where
  "parse_request m r =
     (case parse_request_method m r of
        Inl e \<Rightarrow> Inl e
      | Inr (rc, r1) \<Rightarrow>
          if rc \<noteq> 0 then Inr (-1, r1)
          else (case parse_request_headers m r1 of
                  (rc', r2) \<Rightarrow> if rc' \<noteq> 0 then Inr (-1, r2) else Inr (0, r2)))"

section \<open>The operating system\<close>

text \<open>
  What the system calls answer is a parameter of the model: \<open>realpath\<close> gives the canonical
  path or fails; \<open>stat\<close> gives \<open>st_mode\<close> or fails; \<open>access_X_OK p\<close> is
  \<open>access(p, X_OK) == 0\<close>; \<open>fopen\<close> gives the bytes of a file opened for reading, or
  fails; \<open>opendir p\<close> tells whether the directory opens; \<open>readdir\<close> gives the names
  \<open>scandir\<close> reads from a directory, in the order of the directory, or fails; \<open>popen\<close>
  gives what a command, run in an environment, writes to its standard output, or fails;
  \<open>fwrite_count k n\<close> is what \<open>fwrite\<close> returns when it is handed \<open>n\<close> bytes for the socket
  after \<open>k\<close> bytes were handed to it before: any count up to \<open>n\<close>, as the buffer of the
  stream and the peer decide.
\<close>

record os =
  realpath :: "string \<Rightarrow> string option"
  stat :: "string \<Rightarrow> 32 word option"
  access_X_OK :: "string \<Rightarrow> bool"
  fopen :: "string \<Rightarrow> string option"
  opendir :: "string \<Rightarrow> bool"
  readdir :: "string \<Rightarrow> string list option"
  popen :: "string \<Rightarrow> (string \<rightharpoonup> string) \<Rightarrow> string option"
  fwrite_count :: "nat \<Rightarrow> nat \<Rightarrow> nat"

text \<open>\<open>fwrite(data, 1, length data, r->file)\<close>: the count it returns and the stream after.\<close>

definition fwrite :: "os \<Rightarrow> string \<Rightarrow> sockfile \<Rightarrow> nat \<times> sockfile" where
  "fwrite sys data f =
     (min (length data) (fwrite_count sys (length (sent f)) (length data)), fputs data f)"

text \<open>The file type and permission bits of \<open>st_mode\<close> (sys/stat.h).\<close>

definition S_ISDIR :: "32 word \<Rightarrow> bool" where
  "S_ISDIR mode = (mode AND 0xF000 = 0x4000)"

definition S_ISREG :: "32 word \<Rightarrow> bool" where
  "S_ISREG mode = (mode AND 0xF000 = 0x8000)"

definition S_IRUSR :: "32 word" where
  "S_IRUSR = 0x100"

section \<open>utils.c\<close>

text \<open>\<open>strrchr(s, c)\<close>: the offset of the last \<open>c\<close> in \<open>s\<close>, \<open>None\<close> for NULL.\<close>

definition strrchr :: "string \<Rightarrow> char \<Rightarrow> nat option" where
  "strrchr s c =
     (if c \<in> set s then Some (length s - 1 - length (takeWhile (\<lambda>x. x \<noteq> c) (rev s)))
      else None)"

text \<open>
  The inner loop of \<open>determine_mimetype\<close>:
  \<open>while ((token = strtok(NULL, WHITESPACE))) if (streq(token, ext)) return ...\<close>;
  \<open>True\<close> when it returns at a token equal to \<open>ext\<close>.
\<close>

function match_extension :: "string \<Rightarrow> string \<Rightarrow> string \<Rightarrow> bool" where
  "match_extension delim saved ext =
     (case strtok saved delim of
        None \<Rightarrow> False
      | Some (token, saved') \<Rightarrow>
          if token = ext then True else match_extension delim saved' ext)"
  by pat_completeness auto
termination
  by (relation "measure (\<lambda>(delim, saved, ext). length saved)") (auto dest: strtok_shorter)

text \<open>
  The outer loop, over the lines \<open>fgets\<close> reads from the table. A line with no token
  leaves \<open>mimetype\<close> NULL and the inner loop finds no token either.
\<close>

function scan_mimetypes :: "macros \<Rightarrow> string \<Rightarrow> string \<Rightarrow> string option" where
  "scan_mimetypes m fs ext =
     (case fgets (BUFSIZ m) fs of
        None \<Rightarrow> None
      | Some (raw, rest) \<Rightarrow>
         (case strtok (c_str raw) (WHITESPACE m) of
            None \<Rightarrow> scan_mimetypes m rest ext
          | Some (mimetype, saved) \<Rightarrow>
              if match_extension (WHITESPACE m) saved ext then Some mimetype
              else scan_mimetypes m rest ext))"
  by pat_completeness auto
termination
  by (relation "measure (\<lambda>(m, fs, ext). length fs)") (auto dest: fgets_shorter)

definition determine_mimetype :: "macros \<Rightarrow> config \<Rightarrow> os \<Rightarrow> string \<Rightarrow> string" where
  "determine_mimetype m cfg sys path' =
     (case strrchr path' (CHR ''.'') of
        None \<Rightarrow> DefaultMimeType cfg
      | Some ext \<Rightarrow>
          if ext = 0 then DefaultMimeType cfg
          else (case fopen sys (MimeTypesPath cfg) of
                  None \<Rightarrow> DefaultMimeType cfg
                | Some fs \<Rightarrow>
                   (case scan_mimetypes m fs (drop (ext + 1) path') of
                      Some mimetype \<Rightarrow> mimetype
                    | None \<Rightarrow> DefaultMimeType cfg)))"

definition determine_request_path :: "macros \<Rightarrow> config \<Rightarrow> os \<Rightarrow> string \<Rightarrow> string option" where
  "determine_request_path m cfg sys uri' =
     (let fulluri = snprintf (BUFSIZ m) (RootPath cfg @ uri') in
      case realpath sys fulluri of
        None \<Rightarrow> None
      | Some rp \<Rightarrow>
          if strncmp_eq rp (RootPath cfg) (length (RootPath cfg)) then Some rp else None)"

fun http_status_string :: "Status \<Rightarrow> string" where
  "http_status_string HTTP_STATUS_OK = ''200 OK''"
| "http_status_string HTTP_STATUS_BAD_REQUEST = ''400 Bad Request''"
| "http_status_string HTTP_STATUS_NOT_FOUND = ''404 Not Found''"
| "http_status_string HTTP_STATUS_INTERNAL_SERVER_ERROR = ''500 Internal Server Error''"
| "http_status_string HTTP_STATUS_UNKNOWN = ''418 I'' @ [CHR 0x27] @ ''m A Teapot''"

section \<open>handler.c\<close>

text \<open>
  The copy loop of \<open>handle_error\<close>:
  \<open>while ((nread = fread(buffer, 1, BUFSIZ, fs)) > 0) fwrite(buffer, 1, nread, r->file)\<close>;
  a failed write is logged and the loop goes on.
\<close>

function handle_error_copy :: "os \<Rightarrow> nat \<Rightarrow> string \<Rightarrow> sockfile \<Rightarrow> sockfile" where
  "handle_error_copy sys n fs f =
     (let buffer = take n fs in
      if length buffer > 0
      then handle_error_copy sys n (drop n fs) (snd (fwrite sys buffer f))
      else f)"
  by pat_completeness auto
termination
  by (relation "measure (\<lambda>(sys, n, fs, f). length fs)") auto

definition handle_error :: "macros \<Rightarrow> os \<Rightarrow> Request \<Rightarrow> Status \<Rightarrow> Status \<times> Request" where
  "handle_error m sys r status =
     (let status_string = http_status_string status;
          f1 = fputs (''HTTP/1.0 '' @ status_string @ [LF]) (rfile r);
          f2 = fputs (''Content-type: text/html'' @ [CR, LF, CR, LF]) f1
      in if status = HTTP_STATUS_NOT_FOUND then
           (case fopen sys ''www/html/404.html'' of
              None \<Rightarrow> (status, r\<lparr>rfile := f2\<rparr>)
            | Some fs \<Rightarrow> (status, r\<lparr>rfile := handle_error_copy sys (BUFSIZ m) fs f2\<rparr>))
         else
           (let f3 = fputs (''<!DOCTYPE html>'' @ [LF]) f2;
                f4 = fputs (''<html>'' @ [LF]) f3;
                f5 = fputs (''  <body><h1>'' @ status_string @ ''</h1></body>'' @ [LF]) f4;
                f6 = fputs (''</html>'' @ [LF]) f5
            in (status, r\<lparr>rfile := f6\<rparr>)))"

text \<open>\<open>filter_curdir\<close>, on the name of the entry.\<close>

definition filter_curdir :: "string \<Rightarrow> int" where
  "filter_curdir d_name = (if d_name = ''.'' then 0 else 1)"

text \<open>
  \<open>scandir(path, &entries, filter, alphasort)\<close>: the names the filter keeps, sorted.
  \<open>alphasort\<close> is \<open>strcoll\<close>, which in the C locale is the order of \<open>strcmp\<close>: the
  lexicographic order of the bytes, which is the order of type \<open>string\<close> here.
\<close>

definition scandir :: "os \<Rightarrow> string \<Rightarrow> (string \<Rightarrow> int) \<Rightarrow> string list option" where
  "scandir sys p flt = map_option (\<lambda>names. sort (filter (\<lambda>n. flt n \<noteq> 0) names)) (readdir sys p)"

text \<open>The body of the loop over the entries of \<open>handle_browse_request\<close>.\<close>

definition browse_entry ::
  "macros \<Rightarrow> config \<Rightarrow> os \<Rightarrow> string \<Rightarrow> string \<Rightarrow> sockfile \<Rightarrow> string \<Rightarrow> sockfile" where
  "browse_entry m cfg sys uri' separator f fname =
     (let mimetype = determine_mimetype m cfg sys fname;
          is_image = strncmp_eq mimetype ''image/'' 6;
          webpath = snprintf (BUFSIZ m) (uri' @ separator @ fname);
          f1 = fputs ([TAB] @ ''<li>'' @ [CR, LF]) f;
          f2 = (if is_image
                then fputs ([TAB, TAB] @ ''<img src='' @ [DQ] @ webpath @ [DQ]
                            @ '' width='' @ [DQ] @ ''50'' @ [DQ] @ ''>'' @ [CR, LF]) f1
                else f1);
          f3 = fputs ([TAB, TAB] @ ''<a class='' @ [DQ] @ ''btn btn-primary'' @ [DQ]
                       @ '' href='' @ [DQ] @ webpath @ [DQ] @ ''>''
                       @ fname @ ''</a>'' @ [CR, LF]) f2
      in fputs ([TAB] @ ''</li>'' @ [CR, LF]) f3)"

text \<open>
  \<open>handle_browse_request\<close>. \<open>r->uri[strlen(r->uri) - 1]\<close> reads before the string when
  the URI is empty: the fault \<open>OutOfBounds\<close>. A NULL \<open>r->path\<close> is the fault
  \<open>NullPointer\<close>, here and in the handlers below.
\<close>

definition handle_browse_request ::
  "macros \<Rightarrow> config \<Rightarrow> os \<Rightarrow> Request \<Rightarrow> fault + (Status \<times> Request)" where
  "handle_browse_request m cfg sys r =
     (case path r of
        None \<Rightarrow> Inl NullPointer
      | Some p \<Rightarrow>
          if \<not> opendir sys p then Inr (handle_error m sys r HTTP_STATUS_NOT_FOUND)
          else
            let f1 = fputs (''HTTP/1.0 200 OK'' @ [CR, LF] @ ''Content-Type: text/html''
                             @ [CR, LF, CR, LF]) (rfile r)
            in (case scandir sys p filter_curdir of
                  None \<Rightarrow> Inr (handle_error m sys (r\<lparr>rfile := f1\<rparr>) HTTP_STATUS_NOT_FOUND)
                | Some entries \<Rightarrow>
                    if uri r = [] then Inl OutOfBounds
                    else
                      let separator = (if last (uri r) = CHR ''/'' then [] else ''/'');
                          f2 = fputs (''<h1>Index of '' @ uri r @ ''</h1>'' @ [CR, LF]) f1;
                          f3 = fputs (''<ul>'' @ [CR, LF]) f2;
                          f4 = foldl (browse_entry m cfg sys (uri r) separator) f3 entries;
                          f5 = fputs (''</ul>'' @ [CR, LF]) f4
                      in Inr (HTTP_STATUS_OK, r\<lparr>rfile := f5\<rparr>)))"

text \<open>
  The copy loop of \<open>handle_file_request\<close>; \<open>False\<close> is \<open>goto fail\<close> at a call of
  \<open>fwrite\<close> that returns 0.
\<close>

function handle_file_copy :: "os \<Rightarrow> nat \<Rightarrow> string \<Rightarrow> sockfile \<Rightarrow> bool \<times> sockfile" where
  "handle_file_copy sys n fs f =
     (let buffer = take n fs in
      if length buffer > 0 then
        (case fwrite sys buffer f of
           (written, f') \<Rightarrow>
             if written \<le> 0 then (False, f') else handle_file_copy sys n (drop n fs) f')
      else (True, f))"
  by pat_completeness auto
termination
  by (relation "measure (\<lambda>(sys, n, fs, f). length fs)") auto

text \<open>
  \<open>handle_file_request\<close>. When \<open>fopen\<close> fails, \<open>goto fail\<close> reaches \<open>fclose(fs)\<close> with
  \<open>fs\<close> NULL, which is undefined: the fault \<open>NullPointer\<close>.
\<close>

definition handle_file_request ::
  "macros \<Rightarrow> config \<Rightarrow> os \<Rightarrow> Request \<Rightarrow> fault + (Status \<times> Request)" where
  "handle_file_request m cfg sys r =
     (case path r of
        None \<Rightarrow> Inl NullPointer
      | Some p \<Rightarrow>
         (case fopen sys p of
            None \<Rightarrow> Inl NullPointer
          | Some fs \<Rightarrow>
              let mimetype = determine_mimetype m cfg sys p;
                  f1 = fputs (''HTTP/1.0 '' @ http_status_string HTTP_STATUS_OK @ [CR, LF]) (rfile r);
                  f2 = fputs (''Content-type: '' @ mimetype @ [CR, LF, CR, LF]) f1
              in (case handle_file_copy sys (BUFSIZ m) fs f2 of
                    (True, f3) \<Rightarrow> Inr (HTTP_STATUS_OK, r\<lparr>rfile := f3\<rparr>)
                  | (False, f3) \<Rightarrow>
                      Inr (handle_error m sys (r\<lparr>rfile := f3\<rparr>) HTTP_STATUS_INTERNAL_SERVER_ERROR))))"

text \<open>
  The environment of the process is a map from names to values; \<open>setenv(n, v, 1)\<close> is the
  update \<open>env(n \<mapsto> v)\<close>. The loop over the headers of \<open>handle_cgi_request\<close>:
\<close>

fun export_headers :: "(string \<times> string) list \<Rightarrow> (string \<rightharpoonup> string) \<Rightarrow> (string \<rightharpoonup> string)" where
  "export_headers [] env = env"
| "export_headers ((name, val) # next) env =
     export_headers next
       (if name = ''Host'' then env(''HTTP_HOST'' \<mapsto> val)
        else if name = ''User-Agent'' then env(''HTTP_USER_AGENT'' \<mapsto> val)
        else if name = ''Accept'' then env(''HTTP_ACCEPT'' \<mapsto> val)
        else if name = ''Accept-Language'' then env(''HTTP_ACCEPT'' \<mapsto> val)
        else if name = ''Accept-Encoding'' then env(''HTTP_ACCEPT_ENCODING'' \<mapsto> val)
        else if name = ''Connection'' then env(''HTTP_CONNECTION'' \<mapsto> val)
        else env)"

text \<open>The environment when \<open>popen\<close> is called, \<open>p\<close> being \<open>r->path\<close>.\<close>

definition cgi_environment ::
  "config \<Rightarrow> Request \<Rightarrow> string \<Rightarrow> (string \<rightharpoonup> string) \<Rightarrow> (string \<rightharpoonup> string)" where
  "cgi_environment cfg r p env =
     export_headers (headers r)
       (env(''DOCUMENT_ROOT'' \<mapsto> RootPath cfg,
            ''QUERY_STRING'' \<mapsto> query r,
            ''REMOTE_ADDR'' \<mapsto> host r,
            ''REMOTE_PORT'' \<mapsto> port r,
            ''REQUEST_METHOD'' \<mapsto> rmethod r,
            ''REQUEST_URI'' \<mapsto> uri r,
            ''SCRIPT_FILENAME'' \<mapsto> p,
            ''SERVER_PORT'' \<mapsto> Port cfg))"

text \<open>
  The copy loop of \<open>handle_cgi_request\<close>:
  \<open>while (fgets(buffer, BUFSIZ, pfs) && strlen(buffer) > 0) fprintf(r->file, buffer)\<close>
  (with the format \<open>%s\<close>).
\<close>

function cgi_copy :: "nat \<Rightarrow> string \<Rightarrow> sockfile \<Rightarrow> sockfile" where
  "cgi_copy n pfs f =
     (case fgets n pfs of
        None \<Rightarrow> f
      | Some (raw, rest) \<Rightarrow>
          if length (c_str raw) > 0 then cgi_copy n rest (fputs (c_str raw) f) else f)"
  by pat_completeness auto
termination
  by (relation "measure (\<lambda>(n, pfs, f). length pfs)") (auto dest: fgets_shorter)

definition handle_cgi_request ::
  "macros \<Rightarrow> config \<Rightarrow> os \<Rightarrow> (string \<rightharpoonup> string) \<Rightarrow> Request \<Rightarrow> fault + (Status \<times> Request)" where
  "handle_cgi_request m cfg sys env r =
     (case path r of
        None \<Rightarrow> Inl NullPointer
      | Some p \<Rightarrow>
          let env' = cgi_environment cfg r p env in
          (case env' ''SCRIPT_FILENAME'' of
             None \<Rightarrow> Inl NullPointer
           | Some command \<Rightarrow>
              (case popen sys command env' of
                 None \<Rightarrow> Inr (handle_error m sys r HTTP_STATUS_INTERNAL_SERVER_ERROR)
               | Some pfs \<Rightarrow>
                   Inr (HTTP_STATUS_OK, r\<lparr>rfile := cgi_copy (BUFSIZ m) pfs (rfile r)\<rparr>))))"

text \<open>\<open>handle_request\<close>; \<open>env\<close> is the environment of the process when it is called.\<close>

definition handle_request ::
  "macros \<Rightarrow> config \<Rightarrow> os \<Rightarrow> (string \<rightharpoonup> string) \<Rightarrow> Request \<Rightarrow> fault + (Status \<times> Request)" where
  "handle_request m cfg sys env r =
     (case parse_request m r of
        Inl e \<Rightarrow> Inl e
      | Inr (rc, r1) \<Rightarrow>
          if rc < 0 then Inr (handle_error m sys r1 HTTP_STATUS_BAD_REQUEST)
          else
            let r2 = r1\<lparr>path := determine_request_path m cfg sys (uri r1)\<rparr> in
            (case path r2 of
               None \<Rightarrow> Inr (handle_error m sys r2 HTTP_STATUS_NOT_FOUND)
             | Some p \<Rightarrow>
                (case stat sys p of
                   None \<Rightarrow> Inr (handle_error m sys r2 HTTP_STATUS_INTERNAL_SERVER_ERROR)
                 | Some st_mode \<Rightarrow>
                     if S_ISDIR st_mode then handle_browse_request m cfg sys r2
                     else if S_ISREG st_mode then
                       (if access_X_OK sys p then handle_cgi_request m cfg sys env r2
                        else if st_mode AND S_IRUSR \<noteq> 0 then handle_file_request m cfg sys r2
                        else Inr (handle_error m sys r2 HTTP_STATUS_INTERNAL_SERVER_ERROR))
                     else Inr (handle_error m sys r2 HTTP_STATUS_INTERNAL_SERVER_ERROR))))"

section \<open>Values for the examples\<close>

text \<open>
  The macros as the usual headers have them: \<open>BUFSIZ\<close> of glibc, blank, tab and newline
  for \<open>WHITESPACE\<close>, and a \<open>chomp\<close> that drops the last byte of the buffer.
\<close>

definition std_macros :: macros where
  "std_macros = \<lparr>BUFSIZ = 8192, WHITESPACE = [CHR '' '', TAB, LF], chomp = butlast\<rparr>"

text \<open>A request as \<open>accept_request\<close> leaves it, with the bytes the client sent.\<close>

definition request0 :: "string \<Rightarrow> Request" where
  "request0 input =
     \<lparr>rfile = \<lparr>unread = input, sent = []\<rparr>,
      host = ''10.0.0.7'', port = ''40000'',
      rmethod = [], uri = [], path = None, query = [], headers = []\<rparr>"

text \<open>The configuration of a server started with the root \<open>/srv/www\<close>.\<close>

definition cfg0 :: config where
  "cfg0 = \<lparr>Port = ''9898'', MimeTypesPath = ''/etc/mime.types'',
            DefaultMimeType = ''text/plain'', RootPath = ''/srv/www''\<rparr>"

text \<open>
  A small system: the root holds a page, an image, a script, a hidden file and a file
  \<open>secret.txt\<close> of another user, of mode 0600, which does not open; the table of types
  has two lines; \<open>/srv/www-evil\<close> is a directory beside the root; every \<open>fwrite\<close> on
  the socket returns the count it was given.
\<close>

definition sys0 :: os where
  "sys0 =
     \<lparr>realpath = map_of
        [(''/srv/www/'', ''/srv/www''),
         (''/srv/www/index.html'', ''/srv/www/index.html''),
         (''/srv/www/logo.png'', ''/srv/www/logo.png''),
         (''/srv/www/s.cgi'', ''/srv/www/s.cgi''),
         (''/srv/www/secret.txt'', ''/srv/www/secret.txt''),
         (''/srv/www/../www-evil/x'', ''/srv/www-evil/x''),
         (''/srv/www/../../etc/passwd'', ''/etc/passwd'')],
      stat = map_of
        [(''/srv/www'', 0x41ED), (''/srv/www/index.html'', 0x81A4),
         (''/srv/www/logo.png'', 0x81A4), (''/srv/www/s.cgi'', 0x81ED),
         (''/srv/www/secret.txt'', 0x8180)],
      access_X_OK = (\<lambda>p. p = ''/srv/www'' \<or> p = ''/srv/www/s.cgi''),
      fopen = map_of
        [(''/etc/mime.types'', ''image/png png'' @ [LF] @ ''text/html html htm'' @ [LF]),
         (''/srv/www/index.html'', ''<p>hello</p>'' @ [LF])],
      opendir = (\<lambda>p. p = ''/srv/www''),
      readdir = map_of
        [(''/srv/www'', [''s.cgi'', ''.'', ''logo.png'', ''..'', ''.hidden'', ''index.html''])],
      popen = (\<lambda>command env. if command = ''/srv/www/s.cgi''
                 then Some (''a'' @ [LF, LF] @ ''b'' @ [LF]) else None),
      fwrite_count = (\<lambda>k n. n)\<rparr>"

text \<open>
  The same system with one more file under the root: \<open>shared.txt\<close> of another user, of
  mode 0044, which the process may read through the bits of the others.
\<close>

definition sys1 :: os where
  "sys1 =
     sys0\<lparr>realpath := (realpath sys0)(''/srv/www/shared.txt'' \<mapsto> ''/srv/www/shared.txt''),
          stat := (stat sys0)(''/srv/www/shared.txt'' \<mapsto> 0x8024),
          fopen := (fopen sys0)(''/srv/www/shared.txt'' \<mapsto> ''shared'' @ [LF])\<rparr>"

section \<open>Descriptions used in the statements\<close>

text \<open>
  The lines the loop of \<open>parse_request_headers\<close> reads before the line that ends the
  block (the end of the stream, or a line whose C string, up to its first NUL byte, has
  at most 2 bytes), each as \<open>chomp\<close> leaves the C string of the line.
\<close>

function header_lines :: "macros \<Rightarrow> string \<Rightarrow> string list" where
  "header_lines m s =
     (case fgets (BUFSIZ m) s of
        None \<Rightarrow> []
      | Some (raw, rest) \<Rightarrow>
          if length (c_str raw) > 2 then chomp m (c_str raw) # header_lines m rest else [])"
  by pat_completeness auto
termination
  by (relation "measure (\<lambda>(m, s). length s)") (auto dest: fgets_shorter)

declare header_lines.simps [simp del]

declare parse_request_headers_loop.simps [simp del]

text \<open>
  The pair a header line stands for: the name before the first colon, and the rest after
  the colon without its leading whitespace.
\<close>

definition header_of :: "string \<Rightarrow> string \<times> string" where
  "header_of l = (takeWhile (\<lambda>c. c \<noteq> CHR '':'') l,
                  dropWhile isspace (drop 1 (dropWhile (\<lambda>c. c \<noteq> CHR '':'') l)))"

text \<open>The tokens of a C string: the runs of bytes between delimiters, as \<open>strtok\<close> cuts them.\<close>

function tokens :: "string \<Rightarrow> string \<Rightarrow> string list" where
  "tokens delim s =
     (case strtok s delim of
        None \<Rightarrow> []
      | Some (token, saved) \<Rightarrow> token # tokens delim saved)"
  by pat_completeness auto
termination
  by (relation "measure (\<lambda>(delim, s). length s)") (auto dest: strtok_shorter)

text \<open>The lines of the table of types, as \<open>fgets\<close> reads them.\<close>

function table_lines :: "macros \<Rightarrow> string \<Rightarrow> string list" where
  "table_lines m fs =
     (case fgets (BUFSIZ m) fs of
        None \<Rightarrow> []
      | Some (raw, rest) \<Rightarrow> c_str raw # table_lines m rest)"
  by pat_completeness auto
termination
  by (relation "measure (\<lambda>(m, fs). length fs)") (auto dest: fgets_shorter)

declare tokens.simps [simp del] table_lines.simps [simp del]
  match_extension.simps [simp del] scan_mimetypes.simps [simp del]
  cgi_copy.simps [simp del] handle_file_copy.simps [simp del]
  handle_error_copy.simps [simp del]

text \<open>
  The type of the first line of the table whose tokens after the first hold \<open>ext\<close>, the
  first token of that line.
\<close>

definition table_lookup :: "macros \<Rightarrow> string \<Rightarrow> string \<Rightarrow> string option" where
  "table_lookup m fs ext =
     (case find (\<lambda>l. ext \<in> set (drop 1 (tokens (WHITESPACE m) l))) (table_lines m fs) of
        None \<Rightarrow> None
      | Some l \<Rightarrow> Some (hd (tokens (WHITESPACE m) l)))"

text \<open>The part of a path after its last dot.\<close>

definition after_last_dot :: "string \<Rightarrow> string" where
  "after_last_dot p = rev (takeWhile (\<lambda>c. c \<noteq> CHR ''.'') (rev p))"

text \<open>
  The resolution of a type in the words of the specification: the default when the path
  has no dot, else the lookup of what follows the last dot.
\<close>

definition mimetype_as_claimed :: "macros \<Rightarrow> config \<Rightarrow> os \<Rightarrow> string \<Rightarrow> string" where
  "mimetype_as_claimed m cfg sys p =
     (if CHR ''.'' \<notin> set p then DefaultMimeType cfg
      else (case fopen sys (MimeTypesPath cfg) of
              None \<Rightarrow> DefaultMimeType cfg
            | Some fs \<Rightarrow>
               (case table_lookup m fs (after_last_dot p) of
                  Some mimetype \<Rightarrow> mimetype
                | None \<Rightarrow> DefaultMimeType cfg)))"



section \<open>Header parsing\<close>

lemma read_line_LF:
  "LF \<notin> set body \<Longrightarrow> length body < k \<Longrightarrow> read_line k (body @ LF # rest) = (body @ [LF], rest)"
proof (induction body arbitrary: k)
  case Nil
  then show ?case by (cases k) auto
next
  case (Cons c body)
  then show ?case by (cases k) auto
qed

lemma read_line_eof:
  "LF \<notin> set s \<Longrightarrow> length s \<le> k \<Longrightarrow> read_line k s = (s, [])"
proof (induction s arbitrary: k)
  case Nil
  then show ?case by (cases k) auto
next
  case (Cons c s)
  then show ?case by (cases k) auto
qed

lemma fgets_line:
  "LF \<notin> set body \<Longrightarrow> Suc (length body) < n \<Longrightarrow>
   fgets n (body @ LF # rest) = Some (body @ [LF], rest)"
  by (simp add: fgets_def read_line_LF)

lemma loop_short:
  assumes "fgets (BUFSIZ m) s = Some (raw, rest)" and "length raw \<le> 2"
  shows "parse_request_headers_loop m s cur = (Some cur, rest)"
proof -
  have "length (c_str raw) \<le> 2" using assms(2) c_str_length_le [of raw] by linarith
  then show ?thesis using assms(1)
    by (subst parse_request_headers_loop.simps) simp
qed

lemma loop_fst:
  "fst (parse_request_headers_loop m s cur) =
     (if \<forall>l \<in> set (header_lines m s). CHR '':'' \<in> set l
      then Some (rev (map header_of (header_lines m s)) @ cur) else None)"
proof (induction m s cur rule: parse_request_headers_loop.induct)
  case (1 m s cur)
  show ?case
  proof (cases "fgets (BUFSIZ m) s")
    case None
    then show ?thesis
      by (subst parse_request_headers_loop.simps, subst (1 2) header_lines.simps) simp
  next
    case (Some p)
    obtain raw rest where p: "p = (raw, rest)" by (cases p)
    show ?thesis
    proof (cases "length (c_str raw) > 2")
      case False
      with Some p show ?thesis
        by (subst parse_request_headers_loop.simps, subst (1 2) header_lines.simps) simp
    next
      case True
      show ?thesis
      proof (cases "CHR '':'' \<in> set (chomp m (c_str raw))")
        case False
        with Some p True show ?thesis
          by (subst parse_request_headers_loop.simps, subst (1 2) header_lines.simps) simp
      next
        case c: True
        have ih: "fst (parse_request_headers_loop m rest (header_of (chomp m (c_str raw)) # cur)) =
           (if \<forall>l \<in> set (header_lines m rest). CHR '':'' \<in> set l
            then Some (rev (map header_of (header_lines m rest)) @ header_of (chomp m (c_str raw)) # cur) else None)"
          using "1.IH" [OF Some p [symmetric] True refl _ refl refl] c
          by (simp add: header_of_def skip_whitespace_def)
        from Some p True c ih show ?thesis
          by (subst parse_request_headers_loop.simps, subst (1 2) header_lines.simps)
             (simp add: header_of_def skip_whitespace_def Let_def)
      qed
    qed
  qed
qed

lemma header_lines_step:
  "LF \<notin> set body \<Longrightarrow> Suc (length body) < BUFSIZ m \<Longrightarrow>
   header_lines m (body @ LF # rest) =
     (if length (c_str (body @ [LF])) > 2
      then chomp m (c_str (body @ [LF])) # header_lines m rest else [])"
  by (subst header_lines.simps) (simp add: fgets_line)

lemma loop_step:
  "LF \<notin> set body \<Longrightarrow> Suc (length body) < BUFSIZ m \<Longrightarrow>
   parse_request_headers_loop m (body @ LF # rest) cur =
     (if length (c_str (body @ [LF])) > 2 then
        (if CHR '':'' \<notin> set (chomp m (c_str (body @ [LF]))) then (None, rest)
         else parse_request_headers_loop m rest (header_of (chomp m (c_str (body @ [LF]))) # cur))
      else (Some cur, rest))"
  by (subst parse_request_headers_loop.simps)
     (simp add: fgets_line header_of_def skip_whitespace_def Let_def)

text \<open>
  Claim C10. A line of at most 2 bytes, its newline included, ends the header block with
  success wherever it stands: the headers read so far are kept, the line is consumed and
  no header is recorded for it. So a line of one byte and a newline, such as \<open>a\<close>, ends
  the block as the blank lines CR LF and LF do. (\<open>body\<close> is the line without its newline.)
\<close>

theorem short_line_ends_headers:
  assumes "3 \<le> BUFSIZ m" and "LF \<notin> set body" and "length body \<le> 1"
  shows "parse_request_headers_loop m (body @ LF # rest) cur = (Some cur, rest) \<and>
         parse_request_headers m (r\<lparr>rfile := (rfile r)\<lparr>unread := body @ LF # rest\<rparr>\<rparr>)
           = (0, r\<lparr>rfile := (rfile r)\<lparr>unread := rest\<rparr>, headers := []\<rparr>)"
proof -
  have f: "fgets (BUFSIZ m) (body @ LF # rest) = Some (body @ [LF], rest)"
    using assms by (intro fgets_line) auto
  have l: "parse_request_headers_loop m (body @ LF # rest) cur' = (Some cur', rest)" for cur'
    using f assms(3) by (intro loop_short) auto
  show ?thesis by (simp add: l parse_request_headers_def)
qed

theorem short_line_ends_headers_witness:
  "parse_request_headers_loop std_macros (''a'' @ LF # ''Host: x'') [(''A'', ''b'')]
     = (Some [(''A'', ''b'')], ''Host: x'') \<and>
   parse_request_headers std_macros (request0 (''a'' @ LF # ''Host: x''))
     = (0, request0 ''Host: x'')"
  using short_line_ends_headers [of std_macros "''a''" "''Host: x''" "[(''A'', ''b'')]" "request0 []"]
  by (simp add: std_macros_def request0_def)

lemma headers_of_lines:
  "(fst (parse_request_headers m r) = -1 \<longleftrightarrow>
      (\<exists>l \<in> set (header_lines m (unread (rfile r))). CHR '':'' \<notin> set l)) \<and>
   (fst (parse_request_headers m r) \<noteq> -1 \<longrightarrow>
      fst (parse_request_headers m r) = 0 \<and>
      mset (headers (snd (parse_request_headers m r))) =
        mset (map header_of (header_lines m (unread (rfile r)))))"
proof -
  obtain res rest where l: "parse_request_headers_loop m (unread (rfile r)) [] = (res, rest)"
    by (cases "parse_request_headers_loop m (unread (rfile r)) []")
  have res: "res = (if \<forall>l \<in> set (header_lines m (unread (rfile r))). CHR '':'' \<in> set l
      then Some (rev (map header_of (header_lines m (unread (rfile r))))) else None)"
    using loop_fst [of m "unread (rfile r)" "[]"] l by simp
  show ?thesis
  proof (cases "\<forall>l \<in> set (header_lines m (unread (rfile r))). CHR '':'' \<in> set l")
    case True
    with res l show ?thesis by (simp add: parse_request_headers_def)
  next
    case False
    with res l show ?thesis by (simp add: parse_request_headers_def)
  qed
qed

text \<open>
  Claim C4, as the code has it. \<open>header_lines\<close> are the lines the loop reads before the
  end of the block: each is what \<open>fgets\<close> reads (a line with its newline, or the
  \<open>BUFSIZ - 1\<close> bytes that fit, or what is left of the stream), taken as the C string in
  the buffer, so up to its first NUL byte; the block ends at the end of the stream or at
  the first of them of at most 2 bytes; and each is as \<open>chomp\<close> leaves it. Parsing
  returns -1 exactly when one of these lines, as \<open>chomp\<close> leaves it, holds no colon.
  Otherwise it returns 0 and the request holds one pair for each of them: the name before
  its first colon and the value after that colon without leading whitespace. The
  statement is about the pairs as a multiset: it says nothing on their order in the list.
\<close>

theorem header_parsing:
  "(fst (parse_request_headers m r) = -1 \<longleftrightarrow>
      (\<exists>l \<in> set (header_lines m (unread (rfile r))). CHR '':'' \<notin> set l)) \<and>
   (fst (parse_request_headers m r) \<noteq> -1 \<longrightarrow>
      fst (parse_request_headers m r) = 0 \<and>
      mset (headers (snd (parse_request_headers m r))) =
        mset (map header_of (header_lines m (unread (rfile r)))))"
  by (rule headers_of_lines)

lemma example_lines:
  "header_lines std_macros (''Host: a'' @ LF # ''Accept:   b c'' @ LF # LF # ''rest'') = [''Host: a'', ''Accept:   b c'']"
proof -
  have 1: "header_lines std_macros (LF # ''rest'') = []"
    using header_lines_step [of "[]" std_macros "''rest''"] by (simp add: std_macros_def c_str_def)
  have 2: "header_lines std_macros (''Accept:   b c'' @ LF # LF # ''rest'') = [''Accept:   b c'']"
    using header_lines_step [of "''Accept:   b c''" std_macros "LF # ''rest''"] 1
    by (simp add: std_macros_def c_str_def)
  show ?thesis
    using header_lines_step [of "''Host: a''" std_macros "''Accept:   b c'' @ LF # LF # ''rest''"] 2
    by (simp add: std_macros_def c_str_def)
qed

theorem header_parsing_witness:
  "fst (parse_request_headers std_macros (request0 (''Host: a'' @ LF # ''Accept:   b c'' @ LF # LF # ''rest''))) = 0 \<and>
   mset (headers (snd (parse_request_headers std_macros (request0 (''Host: a'' @ LF # ''Accept:   b c'' @ LF # LF # ''rest''))))) =
     {#(''Host'', ''a''), (''Accept'', ''b c'')#}"
  using header_parsing [of std_macros "request0 (''Host: a'' @ LF # ''Accept:   b c'' @ LF # LF # ''rest'')"]
    example_lines
  by (simp add: request0_def header_of_def isspace_def)

text \<open>
  The claim as written fails twice: the line \<open>x\<close> holds no colon and parsing succeeds,
  and two headers come out in the reverse of the order received.
\<close>

theorem header_parsing_counterexample:
  "parse_request_headers std_macros (request0 (''x'' @ LF # CR # LF # []))
     = (0, request0 [CR, LF]) \<and>
   headers (snd (parse_request_headers std_macros (request0 (''A: 1'' @ LF # ''B: 2'' @ LF # CR # LF # []))))
     = [(''B'', ''2''), (''A'', ''1'')]"
proof -
  have 1: "parse_request_headers_loop std_macros (''x'' @ LF # CR # LF # []) [] = (Some [], [CR, LF])"
    using loop_step [of "''x''" std_macros "[CR, LF]" "[]"] by (simp add: std_macros_def c_str_def)
  have 2: "parse_request_headers_loop std_macros [CR, LF] cur = (Some cur, [])" for cur
    using loop_step [of "[CR]" std_macros "[]" cur] by (simp add: std_macros_def c_str_def)
  have 3: "parse_request_headers_loop std_macros (''B: 2'' @ LF # CR # LF # []) cur = (Some ((''B'', ''2'') # cur), [])" for cur
    using loop_step [of "''B: 2''" std_macros "[CR, LF]" cur] 2
    by (simp add: std_macros_def c_str_def header_of_def isspace_def)
  have 4: "parse_request_headers_loop std_macros (''A: 1'' @ LF # ''B: 2'' @ LF # CR # LF # []) [] = (Some [(''B'', ''2''), (''A'', ''1'')], [])"
    using loop_step [of "''A: 1''" std_macros "''B: 2'' @ LF # CR # LF # []" "[]"] 3
    by (simp add: std_macros_def c_str_def header_of_def isspace_def)
  show ?thesis using 1 4 by (simp add: parse_request_headers_def request0_def)
qed

text \<open>
  What this means for an ordinary block: lines without NUL bytes that end with a
  newline and fit the buffer, each of 3 bytes or more with its newline, followed by a
  line \<open>t\<close> of at most 2 bytes, with a \<open>chomp\<close> that removes the newline of these lines.
  The lines read are these lines without their newline (a carriage return before the
  newline stays in the line, and so in the value).
\<close>

lemma header_block_lines:
  assumes "3 \<le> BUFSIZ m"
    and "\<forall>l \<in> set ls. LF \<notin> set l \<and> NUL \<notin> set l \<and> 2 \<le> length l \<and>
           Suc (length l) < BUFSIZ m \<and> chomp m (l @ [LF]) = l"
    and "LF \<notin> set t" and "length t \<le> 1"
  shows "header_lines m (concat (map (\<lambda>l. l @ [LF]) ls) @ t @ LF # rest) = ls"
  using assms(2)
proof (induction ls)
  case Nil
  have "length (c_str (t @ [LF])) \<le> 2"
    using c_str_length_le [of "t @ [LF]"] assms(4) by simp
  then show ?case
    using header_lines_step [of t m rest] assms(1,3,4) by simp
next
  case (Cons l ls)
  then have l: "LF \<notin> set l" "NUL \<notin> set l" "2 \<le> length l" "Suc (length l) < BUFSIZ m"
    "chomp m (l @ [LF]) = l" by auto
  have c: "c_str (l @ [LF]) = l @ [LF]" using l(2) by (simp add: c_str_id)
  have "header_lines m (l @ LF # concat (map (\<lambda>l. l @ [LF]) ls) @ t @ LF # rest)
          = l # header_lines m (concat (map (\<lambda>l. l @ [LF]) ls) @ t @ LF # rest)"
    using header_lines_step [OF l(1,4)] l(3,5) by (simp add: c)
  then show ?case using Cons by simp
qed

lemma header_block_parsed:
  assumes "3 \<le> BUFSIZ m"
    and "\<forall>l \<in> set ls. LF \<notin> set l \<and> NUL \<notin> set l \<and> 2 \<le> length l \<and>
           Suc (length l) < BUFSIZ m \<and> chomp m (l @ [LF]) = l"
    and "LF \<notin> set t" and "length t \<le> 1"
    and "unread (rfile r) = concat (map (\<lambda>l. l @ [LF]) ls) @ t @ LF # rest"
  shows "(fst (parse_request_headers m r) = -1 \<longleftrightarrow> (\<exists>l \<in> set ls. CHR '':'' \<notin> set l)) \<and>
         (fst (parse_request_headers m r) \<noteq> -1 \<longrightarrow>
            fst (parse_request_headers m r) = 0 \<and>
            mset (headers (snd (parse_request_headers m r))) = mset (map header_of ls))"
  using headers_of_lines [of m r] header_block_lines [OF assms(1-4), of rest] assms(5)
  by simp

section \<open>Path resolution\<close>

lemma strncmp_eq_prefix: "strncmp_eq rp root (length root) = prefix root rp"
  by (auto simp: strncmp_eq_def prefix_def  take_is_prefix)
    (metis append_eq_conv_conj)

text \<open>
  Claim C1. The resolver canonicalizes the root followed by the URI (as \<open>snprintf\<close> puts
  them in its buffer: whole when they fit) and returns NULL when \<open>realpath\<close> fails, and
  when it succeeds with a path that does not start with the bytes of the root. So every
  path it returns starts with the bytes of the root; the comparison is on bytes only.
\<close>

theorem resolved_path_confined:
  "(determine_request_path m cfg sys u =
      (case realpath sys (snprintf (BUFSIZ m) (RootPath cfg @ u)) of
         None \<Rightarrow> None
       | Some rp \<Rightarrow> if prefix (RootPath cfg) rp then Some rp else None)) \<and>
   (length (RootPath cfg @ u) < BUFSIZ m \<longrightarrow>
      snprintf (BUFSIZ m) (RootPath cfg @ u) = RootPath cfg @ u) \<and>
   (\<forall>p. determine_request_path m cfg sys u = Some p \<longrightarrow> prefix (RootPath cfg) p)"
  by (auto simp: determine_request_path_def strncmp_eq_prefix snprintf_def Let_def
           split: option.splits if_splits)

text \<open>
  The last line of the witness is the edge the comparison of bytes leaves open: a path in
  \<open>/srv/www-evil\<close> passes for the root \<open>/srv/www\<close>.
\<close>

theorem resolved_path_confined_witness:
  "length (RootPath cfg0 @ ''/index.html'') < BUFSIZ std_macros \<and>
   determine_request_path std_macros cfg0 sys0 ''/index.html'' = Some ''/srv/www/index.html'' \<and>
   prefix (RootPath cfg0) ''/srv/www/index.html'' \<and>
   determine_request_path std_macros cfg0 sys0 ''/../../etc/passwd'' = None \<and>
   determine_request_path std_macros cfg0 sys0 ''/missing'' = None \<and>
   determine_request_path std_macros cfg0 sys0 ''/../www-evil/x'' = Some ''/srv/www-evil/x''"
  using resolved_path_confined [of std_macros cfg0 sys0 "''/index.html''"]
    resolved_path_confined [of std_macros cfg0 sys0 "''/../../etc/passwd''"]
    resolved_path_confined [of std_macros cfg0 sys0 "''/missing''"]
    resolved_path_confined [of std_macros cfg0 sys0 "''/../www-evil/x''"]
  by (simp add: std_macros_def cfg0_def sys0_def)

section \<open>Types of files\<close>

lemma match_extension_tokens:
  "match_extension delim saved ext = (ext \<in> set (tokens delim saved))"
proof (induction delim saved ext rule: match_extension.induct)
  case (1 delim saved ext)
  show ?case
  proof (cases "strtok saved delim")
    case None
    then show ?thesis
      by (subst match_extension.simps, subst tokens.simps) simp
  next
    case (Some p)
    obtain token saved' where p: "p = (token, saved')" by (cases p)
    show ?thesis
    proof (cases "token = ext")
      case True
      with Some p show ?thesis
        by (subst match_extension.simps, subst tokens.simps) simp
    next
      case False
      with Some p "1.IH" [OF Some p [symmetric] False] show ?thesis
        by (subst match_extension.simps, subst tokens.simps) auto
    qed
  qed
qed

lemma scan_mimetypes_lookup: "scan_mimetypes m fs ext = table_lookup m fs ext"
proof (induction m fs ext rule: scan_mimetypes.induct)
  case (1 m fs ext)
  show ?case
  proof (cases "fgets (BUFSIZ m) fs")
    case None
    then show ?thesis
      by (subst scan_mimetypes.simps) (simp add: table_lookup_def table_lines.simps)
  next
    case (Some p)
    obtain raw rest where p: "p = (raw, rest)" by (cases p)
    have tl: "table_lines m fs = c_str raw # table_lines m rest"
      using Some p by (subst table_lines.simps) simp
    show ?thesis
    proof (cases "strtok (c_str raw) (WHITESPACE m)")
      case None
      then have t: "tokens (WHITESPACE m) (c_str raw) = []"
        by (subst tokens.simps) simp
      have "scan_mimetypes m fs ext = scan_mimetypes m rest ext"
        using Some p None by (subst scan_mimetypes.simps) simp
      also have "\<dots> = table_lookup m rest ext"
        using "1.IH"(1) [OF Some p [symmetric] None] .
      finally show ?thesis by (simp add: table_lookup_def tl t)
    next
      case (Some q)
      note sq = Some
      obtain mimetype saved where q: "q = (mimetype, saved)" by (cases q)
      have t: "tokens (WHITESPACE m) (c_str raw) = mimetype # tokens (WHITESPACE m) saved"
        using sq q by (subst tokens.simps) simp
      show ?thesis
      proof (cases "match_extension (WHITESPACE m) saved ext")
        case True
        then have "scan_mimetypes m fs ext = Some mimetype"
          using \<open>fgets (BUFSIZ m) fs = Some p\<close> p sq q by (subst scan_mimetypes.simps) simp
        with True show ?thesis
          by (simp add: table_lookup_def tl t match_extension_tokens)
      next
        case False
        then have "scan_mimetypes m fs ext = scan_mimetypes m rest ext"
          using \<open>fgets (BUFSIZ m) fs = Some p\<close> p sq q by (subst scan_mimetypes.simps) simp
        also have "\<dots> = table_lookup m rest ext"
          using "1.IH"(2) [OF \<open>fgets (BUFSIZ m) fs = Some p\<close> p [symmetric] sq q [symmetric] False] .
        finally show ?thesis using False
          by (simp add: table_lookup_def tl t match_extension_tokens)
      qed
    qed
  qed
qed

lemma strrchr_None: "strrchr s c = None \<longleftrightarrow> c \<notin> set s"
  by (simp add: strrchr_def)

lemma strrchr_Some:
  assumes "c \<in> set s"
  shows "\<exists>i. strrchr s c = Some i \<and> drop (i + 1) s = rev (takeWhile (\<lambda>x. x \<noteq> c) (rev s)) \<and>
             (i = 0 \<longleftrightarrow> c \<notin> set (drop 1 s))"
proof -
  let ?t = "takeWhile (\<lambda>x. x \<noteq> c) (rev s)"
  let ?d = "dropWhile (\<lambda>x. x \<noteq> c) (rev s)"
  from assms have ne: "?d \<noteq> []" by (simp add: dropWhile_eq_Nil_conv)
  have "hd ?d = c" using hd_dropWhile [of "\<lambda>x. x \<noteq> c" "rev s"] ne by simp
  with ne obtain d where d: "?d = c # d" by (cases ?d) auto
  define t where "t = rev ?t"
  have tl: "length ?t = length t" by (simp add: t_def)
  have "rev s = ?t @ c # d" using takeWhile_dropWhile_id [of "\<lambda>x. x \<noteq> c" "rev s"] d by simp
  then have "rev (rev s) = rev (?t @ c # d)" by simp
  then have s: "s = rev d @ c # t" by (simp add: t_def)
  have nt: "c \<notin> set t" unfolding t_def by (auto dest: set_takeWhileD)
  have i: "strrchr s c = Some (length d)"
    using assms by (simp add: strrchr_def tl) (simp add: s)
  have dr: "drop (length d + 1) s = t" by (simp add: s)
  have z: "(length d = 0) \<longleftrightarrow> c \<notin> set (drop 1 s)"
  proof (cases "rev d")
    case Nil
    with nt show ?thesis by (simp add: s)
  next
    case (Cons b e)
    then have "d \<noteq> []" by auto
    with Cons show ?thesis by (simp add: s)
  qed
  from i dr z show ?thesis unfolding t_def by blast
qed

lemma determine_mimetype_eq:
  "determine_mimetype m cfg sys p =
     (if CHR ''.'' \<notin> set (drop 1 p) then DefaultMimeType cfg
      else (case fopen sys (MimeTypesPath cfg) of
              None \<Rightarrow> DefaultMimeType cfg
            | Some fs \<Rightarrow>
               (case table_lookup m fs (after_last_dot p) of
                  Some mimetype \<Rightarrow> mimetype
                | None \<Rightarrow> DefaultMimeType cfg)))"
proof (cases "CHR ''.'' \<in> set p")
  case False
  then have "CHR ''.'' \<notin> set (drop 1 p)" by (auto dest: in_set_dropD)
  with False show ?thesis by (simp add: determine_mimetype_def strrchr_def)
next
  case True
  from strrchr_Some [OF True] obtain i where
    i: "strrchr p (CHR ''.'') = Some i"
    and d: "drop (i + 1) p = after_last_dot p"
    and z: "i = 0 \<longleftrightarrow> CHR ''.'' \<notin> set (drop 1 p)"
    unfolding after_last_dot_def by blast
  show ?thesis
    using i d z by (simp add: determine_mimetype_def scan_mimetypes_lookup split: option.splits)
qed

lemma table_lines_step:
  "LF \<notin> set body \<Longrightarrow> Suc (length body) < BUFSIZ m \<Longrightarrow>
   table_lines m (body @ LF # rest) = c_str (body @ [LF]) # table_lines m rest"
  by (subst table_lines.simps) (simp add: fgets_line)

lemma table_lines_Nil: "table_lines m [] = []"
  by (subst table_lines.simps) (simp add: fgets_def)

lemma example_table:
  "table_lines std_macros (''image/png png'' @ [LF] @ ''text/html html htm'' @ [LF])
     = [''image/png png'' @ [LF], ''text/html html htm'' @ [LF]]"
  using table_lines_step [of "''image/png png''" std_macros "''text/html html htm'' @ [LF]"]
    table_lines_step [of "''text/html html htm''" std_macros "[]"]
  by (simp add: std_macros_def c_str_def table_lines_Nil)

lemma example_tokens:
  "tokens [CHR '' '', TAB, LF] (''image/png png'' @ [LF]) = [''image/png'', ''png'']"
  "tokens [CHR '' '', TAB, LF] (''text/html html htm'' @ [LF]) = [''text/html'', ''html'', ''htm'']"
  by (simp_all add: tokens.simps strtok_def)

lemma example_lookup:
  "table_lookup std_macros (''image/png png'' @ [LF] @ ''text/html html htm'' @ [LF]) ''png'' = Some ''image/png''"
  "table_lookup std_macros (''image/png png'' @ [LF] @ ''text/html html htm'' @ [LF]) ''htm'' = Some ''text/html''"
  "table_lookup std_macros (''image/png png'' @ [LF] @ ''text/html html htm'' @ [LF]) ''cgi'' = None"
  "table_lookup std_macros (''image/png png'' @ [LF] @ ''text/html html htm'' @ [LF]) ''hidden'' = None"
  "table_lookup std_macros (''image/png png'' @ [LF] @ ''text/html html htm'' @ [LF]) [] = None"
  using example_table example_tokens
  by (simp_all add: table_lookup_def std_macros_def)

text \<open>
  Claim C7, as the code has it. \<open>determine_mimetype\<close> is a total function of the path, the
  configuration and the table, so it always returns a string, and the same one for the
  same table and path. It returns the default when the path has no dot after its first
  byte (no dot at all, or a single dot that starts the path, as in \<open>.png\<close>), when the
  table does not open, and when no line of the table lists what follows the last dot;
  else the first token of the first line that lists it among its later tokens.
\<close>

theorem mimetype_resolution:
  "determine_mimetype m cfg sys p =
     (if CHR ''.'' \<notin> set (drop 1 p) then DefaultMimeType cfg
      else (case fopen sys (MimeTypesPath cfg) of
              None \<Rightarrow> DefaultMimeType cfg
            | Some fs \<Rightarrow>
               (case table_lookup m fs (after_last_dot p) of
                  Some mimetype \<Rightarrow> mimetype
                | None \<Rightarrow> DefaultMimeType cfg)))"
  by (rule determine_mimetype_eq)

theorem mimetype_resolution_witness:
  "determine_mimetype std_macros cfg0 sys0 ''/srv/www/logo.png'' = ''image/png'' \<and>
   determine_mimetype std_macros cfg0 sys0 ''/srv/www/s.cgi'' = ''text/plain'' \<and>
   determine_mimetype std_macros cfg0 sys0 ''README'' = ''text/plain''"
  using mimetype_resolution [of std_macros cfg0 sys0 "''/srv/www/logo.png''"]
    mimetype_resolution [of std_macros cfg0 sys0 "''/srv/www/s.cgi''"]
    mimetype_resolution [of std_macros cfg0 sys0 "''README''"]
    example_lookup
  by (simp add: cfg0_def sys0_def after_last_dot_def)

text \<open>
  The claim as written fails on a path whose only dot is its first byte: what follows the
  last dot of \<open>.png\<close> is \<open>png\<close>, which the table lists, and the default is returned.
\<close>

theorem mimetype_resolution_counterexample:
  "determine_mimetype std_macros cfg0 sys0 ''.png'' = ''text/plain'' \<and>
   mimetype_as_claimed std_macros cfg0 sys0 ''.png'' = ''image/png''"
  using determine_mimetype_eq [of std_macros cfg0 sys0 "''.png''"] example_lookup
  by (simp add: mimetype_as_claimed_def cfg0_def sys0_def after_last_dot_def)

section \<open>The output of a script\<close>

lemma fputs_fputs: "fputs b (fputs a f) = fputs (a @ b) f"
  by (simp add: fputs_def)

lemma fputs_Nil: "fputs [] f = f"
  by (simp add: fputs_def)

lemma cgi_copy_text:
  "2 \<le> n \<Longrightarrow> NUL \<notin> set pfs \<Longrightarrow> cgi_copy n pfs f = fputs pfs f"
proof (induction n pfs f rule: cgi_copy.induct)
  case (1 n pfs f)
  show ?case
  proof (cases "fgets n pfs")
    case None
    with "1.prems" have "pfs = []" by (auto simp: fgets_def split: if_splits)
    with None show ?thesis by (subst cgi_copy.simps) (simp add: fputs_Nil)
  next
    case (Some p)
    obtain raw rest where p: "p = (raw, rest)" by (cases p)
    from Some p have app: "raw @ rest = pfs" by (auto dest: fgets_append)
    from Some p have "length rest < length pfs" by (auto dest: fgets_shorter)
    with app have ne: "raw \<noteq> []" by auto
    from app "1.prems" have nul: "NUL \<notin> set raw" "NUL \<notin> set rest" by auto
    then have c: "c_str raw = raw" by (simp add: c_str_id)
    have "cgi_copy n pfs f = cgi_copy n rest (fputs raw f)"
      using Some p c ne by (subst cgi_copy.simps) simp
    also have "\<dots> = fputs rest (fputs raw f)"
      using "1.IH" [OF Some p [symmetric] _ "1.prems"(1) nul(2)] c ne by simp
    finally show ?thesis by (simp add: fputs_fputs app)
  qed
qed

lemma cgi_copy_step:
  "LF \<notin> set body \<Longrightarrow> Suc (length body) < n \<Longrightarrow>
   cgi_copy n (body @ LF # rest) f =
     (if length (c_str (body @ [LF])) > 0 then cgi_copy n rest (fputs (c_str (body @ [LF])) f) else f)"
  by (subst cgi_copy.simps) (simp add: fgets_line)

text \<open>
  Claim C5, as the code has it. Output without NUL bytes is copied whole to the
  connection, line by line, and the copy ends when the output ends: a line is never
  empty for \<open>strlen\<close>, since it holds its newline, so an empty line does not end the copy.
\<close>

theorem cgi_output_copied:
  "2 \<le> n \<Longrightarrow> NUL \<notin> set pfs \<Longrightarrow> cgi_copy n pfs f = fputs pfs f"
  by (rule cgi_copy_text)

theorem cgi_output_copied_witness:
  "sent (cgi_copy (BUFSIZ std_macros) (''a'' @ [LF] @ ''b'' @ [LF]) (rfile (request0 [])))
     = ''a'' @ [LF] @ ''b'' @ [LF]"
  using cgi_output_copied [of "BUFSIZ std_macros" "''a'' @ [LF] @ ''b'' @ [LF]" "rfile (request0 [])"]
  by (simp add: std_macros_def request0_def fputs_def)

text \<open>
  The claim as written fails: the line \<open>b\<close> after an empty line is copied. And a NUL
  byte cuts the line it stands in, so such output is not copied as it is.
\<close>

theorem cgi_output_copied_counterexample:
  "sent (cgi_copy (BUFSIZ std_macros) (''a'' @ [LF, LF] @ ''b'' @ [LF]) (rfile (request0 [])))
     = ''a'' @ [LF, LF] @ ''b'' @ [LF] \<and>
   sent (cgi_copy (BUFSIZ std_macros) (''a'' @ [NUL] @ ''b'' @ [LF] @ ''c'' @ [LF]) (rfile (request0 [])))
     = ''ac'' @ [LF]"
proof -
  have 1: "cgi_copy (BUFSIZ std_macros) (''a'' @ [LF, LF] @ ''b'' @ [LF]) f
        = fputs (''a'' @ [LF, LF] @ ''b'' @ [LF]) f" for f
    by (rule cgi_copy_text) (simp_all add: std_macros_def)
  have e: "cgi_copy n [] f = f" for n f
    by (subst cgi_copy.simps) (simp add: fgets_def)
  have 2: "cgi_copy 8192 (''c'' @ [LF]) f = fputs (''c'' @ [LF]) f" for f
    by (rule cgi_copy_text) simp_all
  have 3: "cgi_copy 8192 (''a'' @ [NUL] @ ''b'' @ [LF] @ ''c'' @ [LF]) f
        = fputs (''c'' @ [LF]) (fputs ''a'' f)" for f
    using cgi_copy_step [of "''a'' @ [NUL] @ ''b''" 8192 "''c'' @ [LF]" f] 2
    by (simp add: c_str_def)
  show ?thesis
    using 1 [of "rfile (request0 [])"] 3 [of "rfile (request0 [])"]
    by (simp add: std_macros_def request0_def fputs_def)
qed

section \<open>The environment of a script\<close>

text \<open>
  The eight variables of the request and the configuration are set, and no header
  reaches \<open>HTTP_ACCEPT_LANGUAGE\<close>: it keeps the value it had.
\<close>

lemma export_headers_other:
  "n \<notin> {''HTTP_HOST'', ''HTTP_USER_AGENT'', ''HTTP_ACCEPT'', ''HTTP_ACCEPT_ENCODING'',
         ''HTTP_CONNECTION''} \<Longrightarrow> export_headers hs env n = env n"
  by (induction hs env rule: export_headers.induct) auto

lemma cgi_environment_request:
  "cgi_environment cfg r p env ''DOCUMENT_ROOT'' = Some (RootPath cfg)"
  "cgi_environment cfg r p env ''QUERY_STRING'' = Some (query r)"
  "cgi_environment cfg r p env ''REMOTE_ADDR'' = Some (host r)"
  "cgi_environment cfg r p env ''REMOTE_PORT'' = Some (port r)"
  "cgi_environment cfg r p env ''REQUEST_METHOD'' = Some (rmethod r)"
  "cgi_environment cfg r p env ''REQUEST_URI'' = Some (uri r)"
  "cgi_environment cfg r p env ''SCRIPT_FILENAME'' = Some p"
  "cgi_environment cfg r p env ''SERVER_PORT'' = Some (Port cfg)"
  by (simp_all add: cgi_environment_def export_headers_other)

lemma accept_language_never_set:
  "cgi_environment cfg r p env ''HTTP_ACCEPT_LANGUAGE'' = env ''HTTP_ACCEPT_LANGUAGE''"
  by (simp add: cgi_environment_def export_headers_other)

text \<open>
  Claim C6 fails on the code: for the header \<open>Accept-Language\<close> the loop sets
  \<open>HTTP_ACCEPT\<close>, and \<open>HTTP_ACCEPT_LANGUAGE\<close> is never set.
\<close>

theorem accept_language_not_exported:
  "cgi_environment cfg0 ((request0 [])\<lparr>headers := [(''Accept-Language'', ''en-US'')]\<rparr>)
      ''/srv/www/s.cgi'' Map.empty ''HTTP_ACCEPT_LANGUAGE'' = None \<and>
   cgi_environment cfg0 ((request0 [])\<lparr>headers := [(''Accept-Language'', ''en-US'')]\<rparr>)
      ''/srv/www/s.cgi'' Map.empty ''HTTP_ACCEPT'' = Some ''en-US''"
  by (simp add: cgi_environment_def request0_def)

section \<open>Dispatch\<close>

lemma S_ISREG_not_DIR: "S_ISREG mode \<Longrightarrow> \<not> S_ISDIR mode"
  by (simp add: S_ISREG_def S_ISDIR_def)

lemma handle_error_status: "fst (handle_error m sys r status) = status"
  by (simp add: handle_error_def Let_def split: option.splits)

lemma handle_error_copy_fputs:
  "handle_error_copy sys n fs f = (if n = 0 then f else fputs fs f)"
proof (induction sys n fs f rule: handle_error_copy.induct)
  case (1 sys n fs f)
  show ?case
  proof (cases "0 < length (take n fs)")
    case False
    then show ?thesis
      by (subst handle_error_copy.simps) (auto simp: Let_def fputs_Nil)
  next
    case True
    then have n: "n \<noteq> 0" by auto
    have "handle_error_copy sys n fs f = handle_error_copy sys n (drop n fs) (fputs (take n fs) f)"
      using True by (subst handle_error_copy.simps) (simp add: Let_def fwrite_def)
    also have "\<dots> = fputs (drop n fs) (fputs (take n fs) f)"
      using "1.IH" [OF refl True] n by (simp add: fwrite_def)
    finally show ?thesis using n by (simp add: fputs_fputs)
  qed
qed

lemma handle_error_stat:
  "handle_error m (sys\<lparr>stat := st\<rparr>) r status = handle_error m sys r status"
  by (cases "status = HTTP_STATUS_NOT_FOUND")
     (simp_all add: handle_error_def Let_def handle_error_copy_fputs split: option.splits)

lemma determine_request_path_stat:
  "determine_request_path m cfg (sys\<lparr>stat := st\<rparr>) u = determine_request_path m cfg sys u"
  by (simp add: determine_request_path_def)

text \<open>
  What the code does. After a request that parses, with \<open>r2\<close> the request once the path
  is resolved: a directory goes to \<open>handle_browse_request\<close>, whatever \<open>access\<close> says; a
  regular file that \<open>access\<close> finds executable goes to \<open>handle_cgi_request\<close>; a regular
  file that is not executable goes to \<open>handle_file_request\<close> when \<open>st_mode\<close> has the read
  bit of the owner, whoever the owner is; anything else, and a path \<open>stat\<close> fails on, is
  answered by \<open>handle_error\<close> with \<open>HTTP_STATUS_INTERNAL_SERVER_ERROR\<close>; a NULL path is
  answered with \<open>HTTP_STATUS_NOT_FOUND\<close> whatever \<open>stat\<close> would say; and \<open>handle_error\<close>
  returns the status it is given.
\<close>

lemma dispatch_by_metadata:
  assumes "parse_request m r = Inr (0, r1)"
    and "r2 = r1\<lparr>path := determine_request_path m cfg sys (uri r1)\<rparr>"
  shows
    "(\<forall>p mode. path r2 = Some p \<and> stat sys p = Some mode \<and> S_ISDIR mode \<longrightarrow>
        handle_request m cfg sys env r = handle_browse_request m cfg sys r2) \<and>
     (\<forall>p mode. path r2 = Some p \<and> stat sys p = Some mode \<and> S_ISREG mode \<and> access_X_OK sys p \<longrightarrow>
        handle_request m cfg sys env r = handle_cgi_request m cfg sys env r2) \<and>
     (\<forall>p mode. path r2 = Some p \<and> stat sys p = Some mode \<and> S_ISREG mode \<and>
          \<not> access_X_OK sys p \<and> mode AND S_IRUSR \<noteq> 0 \<longrightarrow>
        handle_request m cfg sys env r = handle_file_request m cfg sys r2) \<and>
     (\<forall>p mode. path r2 = Some p \<and> stat sys p = Some mode \<and>
          \<not> S_ISDIR mode \<and> \<not> (S_ISREG mode \<and> access_X_OK sys p) \<and>
          \<not> (S_ISREG mode \<and> mode AND S_IRUSR \<noteq> 0) \<longrightarrow>
        handle_request m cfg sys env r =
          Inr (handle_error m sys r2 HTTP_STATUS_INTERNAL_SERVER_ERROR)) \<and>
     (\<forall>p. path r2 = Some p \<and> stat sys p = None \<longrightarrow>
        handle_request m cfg sys env r =
          Inr (handle_error m sys r2 HTTP_STATUS_INTERNAL_SERVER_ERROR)) \<and>
     (path r2 = None \<longrightarrow>
        (\<forall>st. handle_request m cfg (sys\<lparr>stat := st\<rparr>) env r =
           Inr (handle_error m sys r2 HTTP_STATUS_NOT_FOUND))) \<and>
     (\<forall>r' status. fst (handle_error m sys r' status) = status)"
proof -
  have hr: "handle_request m cfg sys' env r =
     (let r2 = r1\<lparr>path := determine_request_path m cfg sys' (uri r1)\<rparr> in
      (case path r2 of
         None \<Rightarrow> Inr (handle_error m sys' r2 HTTP_STATUS_NOT_FOUND)
       | Some p \<Rightarrow>
          (case stat sys' p of
             None \<Rightarrow> Inr (handle_error m sys' r2 HTTP_STATUS_INTERNAL_SERVER_ERROR)
           | Some st_mode \<Rightarrow>
               if S_ISDIR st_mode then handle_browse_request m cfg sys' r2
               else if S_ISREG st_mode then
                 (if access_X_OK sys' p then handle_cgi_request m cfg sys' env r2
                  else if st_mode AND S_IRUSR \<noteq> 0 then handle_file_request m cfg sys' r2
                  else Inr (handle_error m sys' r2 HTTP_STATUS_INTERNAL_SERVER_ERROR))
               else Inr (handle_error m sys' r2 HTTP_STATUS_INTERNAL_SERVER_ERROR))))" for sys'
    using assms(1) by (simp add: handle_request_def)
  have 1: "\<forall>p mode. path r2 = Some p \<and> stat sys p = Some mode \<and> S_ISDIR mode \<longrightarrow>
        handle_request m cfg sys env r = handle_browse_request m cfg sys r2"
    using assms(2) by (simp add: hr)
  have 2: "\<forall>p mode. path r2 = Some p \<and> stat sys p = Some mode \<and> S_ISREG mode \<and> access_X_OK sys p \<longrightarrow>
        handle_request m cfg sys env r = handle_cgi_request m cfg sys env r2"
    using assms(2) by (auto simp: hr S_ISREG_not_DIR)
  have 3: "\<forall>p mode. path r2 = Some p \<and> stat sys p = Some mode \<and> S_ISREG mode \<and>
          \<not> access_X_OK sys p \<and> mode AND S_IRUSR \<noteq> 0 \<longrightarrow>
        handle_request m cfg sys env r = handle_file_request m cfg sys r2"
    using assms(2) by (auto simp: hr S_ISREG_not_DIR)
  have 4: "\<forall>p mode. path r2 = Some p \<and> stat sys p = Some mode \<and>
          \<not> S_ISDIR mode \<and> \<not> (S_ISREG mode \<and> access_X_OK sys p) \<and>
          \<not> (S_ISREG mode \<and> mode AND S_IRUSR \<noteq> 0) \<longrightarrow>
        handle_request m cfg sys env r =
          Inr (handle_error m sys r2 HTTP_STATUS_INTERNAL_SERVER_ERROR)"
    using assms(2) by (auto simp: hr Let_def)
  have 5: "\<forall>p. path r2 = Some p \<and> stat sys p = None \<longrightarrow>
        handle_request m cfg sys env r =
          Inr (handle_error m sys r2 HTTP_STATUS_INTERNAL_SERVER_ERROR)"
    using assms(2) by (simp add: hr)
  have 6: "path r2 = None \<longrightarrow>
        (\<forall>st. handle_request m cfg (sys\<lparr>stat := st\<rparr>) env r =
           Inr (handle_error m sys r2 HTTP_STATUS_NOT_FOUND))"
    using assms(2) by (simp add: hr determine_request_path_stat handle_error_stat)
  from 1 2 3 4 5 6 handle_error_status show ?thesis by blast
qed

lemma example_request_line:
  "parse_request_method std_macros (request0 (''GET / HTTP/1.0'' @ [CR, LF, CR, LF]))
     = Inr (0, (request0 [CR, LF])\<lparr>rmethod := ''GET'', uri := ''/'', query := []\<rparr>)"
  using fgets_line [of "''GET / HTTP/1.0'' @ [CR]" 8192 "[CR, LF]"]
  by (simp add: parse_request_method_def std_macros_def request0_def c_str_def strtok_def)

lemma example_request:
  "parse_request std_macros (request0 (''GET / HTTP/1.0'' @ [CR, LF, CR, LF]))
     = Inr (0, (request0 [])\<lparr>rmethod := ''GET'', uri := ''/'', query := []\<rparr>)"
proof -
  have "parse_request_headers_loop std_macros [CR, LF] [] = (Some [], [])"
    using loop_step [of "[CR]" std_macros "[]" "[]"] by (simp add: std_macros_def c_str_def)
  then have "parse_request_headers std_macros
       ((request0 [CR, LF])\<lparr>rmethod := ''GET'', uri := ''/'', query := []\<rparr>)
     = (0, (request0 [])\<lparr>rmethod := ''GET'', uri := ''/'', query := []\<rparr>)"
    by (simp add: parse_request_headers_def request0_def)
  then show ?thesis
    using example_request_line by (simp add: parse_request_def)
qed

lemma dispatch_by_metadata_example:
  "parse_request std_macros (request0 (''GET / HTTP/1.0'' @ [CR, LF, CR, LF]))
     = Inr (0, (request0 [])\<lparr>rmethod := ''GET'', uri := ''/'', query := []\<rparr>) \<and>
   handle_request std_macros cfg0 sys0 Map.empty (request0 (''GET / HTTP/1.0'' @ [CR, LF, CR, LF]))
     = handle_browse_request std_macros cfg0 sys0
         ((request0 [])\<lparr>rmethod := ''GET'', uri := ''/'', query := [], path := Some ''/srv/www''\<rparr>)"
proof -
  have p: "determine_request_path std_macros cfg0 sys0 ''/'' = Some ''/srv/www''"
    by (simp add: determine_request_path_def std_macros_def cfg0_def sys0_def snprintf_def
        strncmp_eq_def)
  have s: "stat sys0 ''/srv/www'' = Some 0x41ED" by (simp add: sys0_def)
  have d: "S_ISDIR (0x41ED :: 32 word)" by (simp add: S_ISDIR_def)
  show ?thesis
    using dispatch_by_metadata [OF example_request refl, of cfg0 sys0 Map.empty] p s d
      example_request
    by simp
qed

section \<open>Directory listing\<close>








section \<open>The request line\<close>

text \<open>
  What the code does right. A request line of a method, a URI, \<open>?\<close>, a query that is
  not empty and does not start with \<open>#\<close>, and a version, each after one blank, that fits
  the buffer: the method, the URI before \<open>?\<close> and the query up to its first \<open>#\<close> are
  recorded. Without \<open>?\<close> the query is empty. A line of fewer than two tokens fails.
\<close>

lemma strtok_token:
  assumes "tok \<noteq> []" and "set tok \<inter> set delim = {}" and "d \<in> set delim"
  shows "strtok (tok @ d # rest) delim = Some (tok, rest)"
proof -
  from assms(1) obtain a t where t: "tok = a # t" by (cases tok) auto
  with assms(2) have a: "a \<notin> set delim" by auto
  have all: "\<forall>x \<in> set tok. x \<notin> set delim" using assms(2) by auto
  have 1: "dropWhile (\<lambda>c. c \<in> set delim) (tok @ d # rest) = tok @ d # rest"
    using t a by simp
  have 2: "takeWhile (\<lambda>c. c \<notin> set delim) (tok @ d # rest) = tok"
    using all assms(3) by (simp add: takeWhile_tail)
  have 3: "dropWhile (\<lambda>c. c \<notin> set delim) (tok @ d # rest) = d # rest"
    using all assms(3) by (simp add: dropWhile_append2)
  show ?thesis by (simp add: strtok_def 1 2 3 Let_def)
qed

lemma strtok_first:
  assumes "s \<noteq> []" and "hd s \<notin> set delim"
  shows "strtok s delim = Some (takeWhile (\<lambda>c. c \<notin> set delim) s,
                               drop 1 (dropWhile (\<lambda>c. c \<notin> set delim) s))"
proof -
  from assms obtain a t where "s = a # t" "a \<notin> set delim" by (cases s) auto
  then show ?thesis by (simp add: strtok_def)
qed

lemma strtok_cut_first:
  assumes "s \<noteq> []" and "hd s \<notin> set delim"
  shows "strtok_cut s delim = take (length (takeWhile (\<lambda>c. c \<notin> set delim) s)) s"
proof -
  from assms obtain a t where "s = a # t" "a \<notin> set delim" by (cases s) auto
  then show ?thesis by (simp add: strtok_cut_def)
qed

lemma request_line_query:
  assumes line: "unread (rfile r) = meth @ CHR '' '' # u @ CHR ''?'' # q @ CHR '' '' # ver @ LF # rest"
    and fits: "Suc (length (meth @ CHR '' '' # u @ CHR ''?'' # q @ CHR '' '' # ver)) < BUFSIZ m"
    and ver: "LF \<notin> set ver"
    and nul: "NUL \<notin> set (meth @ u @ q @ ver)"
    and meth: "meth \<noteq> []" "set meth \<inter> {CHR '' '', TAB, LF} = {}"
    and u: "u \<noteq> []" "set u \<inter> {CHR '' '', TAB, LF, CHR ''?''} = {}"
    and q: "q \<noteq> []" "set q \<inter> {CHR '' '', TAB, LF} = {}" "hd q \<noteq> CHR ''#''"
  shows "parse_request_method m r =
           Inr (0, r\<lparr>rfile := (rfile r)\<lparr>unread := rest\<rparr>,
                     rmethod := meth, uri := u, query := takeWhile (\<lambda>c. c \<noteq> CHR ''#'') q\<rparr>)"
proof -
  let ?ws = "[CHR '' '', TAB, LF]"
  let ?qd = "[CHR ''#'', CHR '' '', LF, TAB]"
  define body where "body = meth @ CHR '' '' # u @ CHR ''?'' # q @ CHR '' '' # ver"
  define tok where "tok = u @ CHR ''?'' # q"
  define tail where "tail = ver @ [LF]"
  have lf: "LF \<notin> set body" using ver meth(2) u(2) q(2) by (auto simp: body_def)
  have fg: "fgets (BUFSIZ m) (unread (rfile r)) = Some (body @ [LF], rest)"
    using fgets_line [OF lf, of "BUFSIZ m" rest] fits line by (simp add: body_def)
  have cs: "c_str (body @ [LF]) = meth @ CHR '' '' # tok @ CHR '' '' # tail"
    using nul by (simp add: c_str_id body_def tok_def tail_def)
  have t1: "strtok (meth @ CHR '' '' # tok @ CHR '' '' # tail) ?ws
              = Some (meth, tok @ CHR '' '' # tail)"
    using meth by (intro strtok_token) auto
  have t2: "strtok (tok @ CHR '' '' # tail) ?ws = Some (tok, tail)"
    using u q by (intro strtok_token) (auto simp: tok_def)
  have nq: "\<forall>x \<in> set u. x \<noteq> CHR ''?''" using u(2) by auto
  have q0: "drop (Suc 0) (dropWhile (\<lambda>c. c \<noteq> CHR ''?'') tok) = q"
    using nq by (simp add: dropWhile_append2 tok_def)
  have pre: "takeWhile (\<lambda>c. c \<noteq> CHR ''?'') tok = u"
    using nq by (simp add: takeWhile_tail tok_def)
  have hq: "hd q \<notin> set ?qd" using q by (cases q) auto
  have tq: "takeWhile (\<lambda>c. c \<notin> set ?qd) q = takeWhile (\<lambda>c. c \<noteq> CHR ''#'') q"
    using q(2) by (intro takeWhile_cong) auto
  obtain sq where t3: "strtok q ?qd = Some (takeWhile (\<lambda>c. c \<noteq> CHR ''#'') q, sq)"
    using strtok_first [OF q(1) hq] tq by simp
  define cut where "cut = strtok_cut q ?qd"
  have hu: "hd (u @ CHR ''?'' # cut) \<notin> set [CHR ''?'']" using u by (cases u) auto
  obtain su where t4: "strtok (u @ CHR ''?'' # cut) [CHR ''?''] = Some (u, su)"
    using strtok_first [OF _ hu] nq by (simp add: takeWhile_tail)
  have in_uri: "CHR ''?'' \<in> set tok" by (simp add: tok_def)
  show ?thesis
    by (simp add: parse_request_method_def fg cs t1 t2 in_uri q0 pre cut_def [symmetric]
        t3 t4 Let_def)
qed

lemma request_line_no_query:
  assumes line: "unread (rfile r) = meth @ CHR '' '' # u @ CHR '' '' # ver @ LF # rest"
    and fits: "Suc (length (meth @ CHR '' '' # u @ CHR '' '' # ver)) < BUFSIZ m"
    and ver: "LF \<notin> set ver"
    and nul: "NUL \<notin> set (meth @ u @ ver)"
    and meth: "meth \<noteq> []" "set meth \<inter> {CHR '' '', TAB, LF} = {}"
    and u: "u \<noteq> []" "set u \<inter> {CHR '' '', TAB, LF, CHR ''?''} = {}"
  shows "parse_request_method m r =
           Inr (0, r\<lparr>rfile := (rfile r)\<lparr>unread := rest\<rparr>,
                     rmethod := meth, uri := u, query := []\<rparr>)"
proof -
  let ?ws = "[CHR '' '', TAB, LF]"
  define body where "body = meth @ CHR '' '' # u @ CHR '' '' # ver"
  define tail where "tail = ver @ [LF]"
  have lf: "LF \<notin> set body" using ver meth(2) u(2) by (auto simp: body_def)
  have fg: "fgets (BUFSIZ m) (unread (rfile r)) = Some (body @ [LF], rest)"
    using fgets_line [OF lf, of "BUFSIZ m" rest] fits line by (simp add: body_def)
  have cs: "c_str (body @ [LF]) = meth @ CHR '' '' # u @ CHR '' '' # tail"
    using nul by (simp add: c_str_id body_def tail_def)
  have t1: "strtok (meth @ CHR '' '' # u @ CHR '' '' # tail) ?ws
              = Some (meth, u @ CHR '' '' # tail)"
    using meth by (intro strtok_token) auto
  have t2: "strtok (u @ CHR '' '' # tail) ?ws = Some (u, tail)"
    using u by (intro strtok_token) auto
  have no: "CHR ''?'' \<notin> set u" using u(2) by auto
  show ?thesis
    by (simp add: parse_request_method_def fg cs t1 t2 no)
qed

lemma request_line_one_token:
  assumes "fgets (BUFSIZ m) (unread (rfile r)) = Some (raw, rest)"
    and "length (tokens [CHR '' '', TAB, LF] (c_str raw)) < 2"
  shows "parse_request_method m r = Inr (-1, r\<lparr>rfile := (rfile r)\<lparr>unread := rest\<rparr>\<rparr>)"
proof (cases "strtok (c_str raw) [CHR '' '', TAB, LF]")
  case None
  with assms(1) show ?thesis by (simp add: parse_request_method_def)
next
  case (Some p)
  obtain t saved where p: "p = (t, saved)" by (cases p)
  have "tokens [CHR '' '', TAB, LF] (c_str raw) = t # tokens [CHR '' '', TAB, LF] saved"
    using Some p by (subst tokens.simps) simp
  with assms(2) have "tokens [CHR '' '', TAB, LF] saved = []" by simp
  then have "strtok saved [CHR '' '', TAB, LF] = None"
    by (subst (asm) tokens.simps) (simp split: option.splits prod.splits)
  with assms(1) Some p show ?thesis by (simp add: parse_request_method_def)
qed

text \<open>
  Claim C3 fails on the code. For a URI that ends with \<open>?\<close> the query is empty,
  \<open>strtok\<close> finds no token in it and \<open>strdup(NULL)\<close> is undefined. And \<open>strtok\<close> skips
  the delimiters before a token: after \<open>?\<close>, a query that starts with \<open>#\<close> is not cut
  there.
\<close>

theorem empty_query_undefined:
  "parse_request_method std_macros (request0 (''GET /a? HTTP/1.0'' @ [CR, LF]))
     = Inl NullPointer \<and>
   parse_request_method std_macros (request0 (''GET /a?#x HTTP/1.0'' @ [CR, LF]))
     = Inr (0, (request0 [])\<lparr>rmethod := ''GET'', uri := ''/a'', query := ''x''\<rparr>)"
  using fgets_line [of "''GET /a? HTTP/1.0'' @ [CR]" 8192 "[]"]
    fgets_line [of "''GET /a?#x HTTP/1.0'' @ [CR]" 8192 "[]"]
  by (simp add: parse_request_method_def std_macros_def request0_def c_str_def strtok_def
      strtok_cut_def)

section \<open>Static files\<close>

text \<open>
  What the code does right, once the file is open: when every call of \<open>fwrite\<close> returns
  a count above 0, the status line, the type and all the bytes of the file are written
  and the status is OK; when the first call of \<open>fwrite\<close> returns 0, the status is
  \<open>HTTP_STATUS_INTERNAL_SERVER_ERROR\<close>.
\<close>

lemma handle_file_copy_all:
  assumes "0 < n" and "\<forall>k i. 0 < i \<longrightarrow> 0 < fwrite_count sys k i"
  shows "handle_file_copy sys n fs f = (True, fputs fs f)"
  using assms
proof (induction sys n fs f rule: handle_file_copy.induct)
  case (1 sys n fs f)
  show ?case
  proof (cases "fs = []")
    case True
    then show ?thesis by (subst handle_file_copy.simps) (simp add: fputs_Nil)
  next
    case False
    let ?b = "take n fs"
    from False "1.prems" have ne: "0 < length ?b" by simp
    with "1.prems"(2) have c: "0 < fwrite_count sys (length (sent f)) (length ?b)" by blast
    have w: "fwrite sys ?b f =
        (min (length ?b) (fwrite_count sys (length (sent f)) (length ?b)), fputs ?b f)"
      by (simp add: fwrite_def)
    have pos: "\<not> min (length ?b) (fwrite_count sys (length (sent f)) (length ?b)) \<le> 0"
      using ne c by simp
    have "handle_file_copy sys n fs f = handle_file_copy sys n (drop n fs) (fputs ?b f)"
      using ne w pos False "1.prems"(1)
      by (subst handle_file_copy.simps) (auto simp: Let_def min_def)
    also have "\<dots> = (True, fputs (drop n fs) (fputs ?b f))"
      using "1.IH" [OF refl ne w [symmetric] pos "1.prems"] .
    finally show ?thesis by (simp add: fputs_fputs)
  qed
qed

lemma handle_file_copy_fails:
  assumes "0 < n" and "fs \<noteq> []"
    and "fwrite_count sys (length (sent f)) (length (take n fs)) = 0"
  shows "fst (handle_file_copy sys n fs f) = False"
  using assms by (subst handle_file_copy.simps) (simp add: Let_def fwrite_def)

lemma file_request_streams:
  assumes "path r = Some p" and "fopen sys p = Some fs" and "0 < BUFSIZ m"
    and "\<forall>k i. 0 < i \<longrightarrow> 0 < fwrite_count sys k i"
  shows "handle_file_request m cfg sys r =
           Inr (HTTP_STATUS_OK,
                r\<lparr>rfile := fputs (''HTTP/1.0 200 OK'' @ [CR, LF] @ ''Content-type: ''
                                   @ determine_mimetype m cfg sys p @ [CR, LF, CR, LF] @ fs)
                                  (rfile r)\<rparr>)"
proof -
  let ?h = "''HTTP/1.0 200 OK'' @ [CR, LF] @ ''Content-type: '' @ determine_mimetype m cfg sys p
            @ [CR, LF, CR, LF]"
  from handle_file_copy_all [OF assms(3,4)]
  have "handle_file_copy sys (BUFSIZ m) fs (fputs ?h (rfile r))
          = (True, fputs (?h @ fs) (rfile r))"
    by (simp add: fputs_fputs)
  then show ?thesis
    using assms(1,2) by (simp add: handle_file_request_def Let_def fputs_fputs)
qed

lemma file_request_write_fails:
  assumes "path r = Some p" and "fopen sys p = Some fs" and "0 < BUFSIZ m" and "fs \<noteq> []"
    and "fwrite_count sys
           (length (sent (rfile r) @ ''HTTP/1.0 200 OK'' @ [CR, LF] @ ''Content-type: ''
                    @ determine_mimetype m cfg sys p @ [CR, LF, CR, LF]))
           (length (take (BUFSIZ m) fs)) = 0"
  shows "\<exists>r'. handle_file_request m cfg sys r = Inr (HTTP_STATUS_INTERNAL_SERVER_ERROR, r')"
proof -
  let ?h = "''HTTP/1.0 200 OK'' @ [CR, LF] @ ''Content-type: '' @ determine_mimetype m cfg sys p
            @ [CR, LF, CR, LF]"
  have "sent (fputs ?h (rfile r)) = sent (rfile r) @ ?h" by (simp add: fputs_def)
  with assms(5)
  have "fwrite_count sys (length (sent (fputs ?h (rfile r)))) (length (take (BUFSIZ m) fs)) = 0"
    by simp
  from handle_file_copy_fails [OF assms(3,4) this]
  obtain f3 where "handle_file_copy sys (BUFSIZ m) fs (fputs ?h (rfile r)) = (False, f3)"
    by (cases "handle_file_copy sys (BUFSIZ m) fs (fputs ?h (rfile r))") auto
  then have "handle_file_request m cfg sys r =
      Inr (handle_error m sys (r\<lparr>rfile := f3\<rparr>) HTTP_STATUS_INTERNAL_SERVER_ERROR)"
    using assms(1,2) by (simp add: handle_file_request_def Let_def fputs_fputs)
  moreover obtain r' where "handle_error m sys (r\<lparr>rfile := f3\<rparr>) HTTP_STATUS_INTERNAL_SERVER_ERROR
      = (HTTP_STATUS_INTERNAL_SERVER_ERROR, r')"
    using handle_error_status [of m sys "r\<lparr>rfile := f3\<rparr>" HTTP_STATUS_INTERNAL_SERVER_ERROR]
    by (cases "handle_error m sys (r\<lparr>rfile := f3\<rparr>) HTTP_STATUS_INTERNAL_SERVER_ERROR") auto
  ultimately show ?thesis by simp
qed

lemma file_request_open_fails:
  "path r = Some p \<Longrightarrow> fopen sys p = None \<Longrightarrow> handle_file_request m cfg sys r = Inl NullPointer"
  by (simp add: handle_file_request_def)

lemma example_secret_request:
  "parse_request std_macros (request0 (''GET /secret.txt HTTP/1.0'' @ [CR, LF, CR, LF]))
     = Inr (0, (request0 [])\<lparr>rmethod := ''GET'', uri := ''/secret.txt'', query := []\<rparr>)"
proof -
  have 1: "parse_request_method std_macros (request0 (''GET /secret.txt HTTP/1.0'' @ [CR, LF, CR, LF]))
     = Inr (0, (request0 [CR, LF])\<lparr>rmethod := ''GET'', uri := ''/secret.txt'', query := []\<rparr>)"
    using fgets_line [of "''GET /secret.txt HTTP/1.0'' @ [CR]" 8192 "[CR, LF]"]
    by (simp add: parse_request_method_def std_macros_def request0_def c_str_def strtok_def)
  have "parse_request_headers_loop std_macros [CR, LF] [] = (Some [], [])"
    using loop_step [of "[CR]" std_macros "[]" "[]"] by (simp add: std_macros_def c_str_def)
  then have "parse_request_headers std_macros
       ((request0 [CR, LF])\<lparr>rmethod := ''GET'', uri := ''/secret.txt'', query := []\<rparr>)
     = (0, (request0 [])\<lparr>rmethod := ''GET'', uri := ''/secret.txt'', query := []\<rparr>)"
    by (simp add: parse_request_headers_def request0_def)
  then show ?thesis
    using 1 by (simp add: parse_request_def)
qed

text \<open>
  Claim C8 fails on the code. When the file does not open, \<open>goto fail\<close> runs
  \<open>fclose(fs)\<close> on the NULL stream, which is undefined, before \<open>handle_error\<close> is reached.
  Here for a regular file with the owner's read bit that belongs to another user.
\<close>

theorem open_failure_undefined:
  "handle_file_request std_macros cfg0 sys0
      ((request0 [])\<lparr>rmethod := ''GET'', uri := ''/secret.txt'', query := [],
                       path := Some ''/srv/www/secret.txt''\<rparr>) = Inl NullPointer \<and>
   handle_request std_macros cfg0 sys0 Map.empty
      (request0 (''GET /secret.txt HTTP/1.0'' @ [CR, LF, CR, LF])) = Inl NullPointer"
proof -
  have f: "handle_file_request std_macros cfg0 sys0
      ((request0 [])\<lparr>rmethod := ''GET'', uri := ''/secret.txt'', query := [],
                       path := Some ''/srv/www/secret.txt''\<rparr>) = Inl NullPointer"
    by (simp add: handle_file_request_def sys0_def)
  have p: "determine_request_path std_macros cfg0 sys0 ''/secret.txt'' = Some ''/srv/www/secret.txt''"
    by (simp add: determine_request_path_def std_macros_def cfg0_def sys0_def snprintf_def
        strncmp_eq_def)
  have s: "stat sys0 ''/srv/www/secret.txt'' = Some 0x8180" by (simp add: sys0_def)
  have x: "\<not> access_X_OK sys0 ''/srv/www/secret.txt''" by (simp add: sys0_def)
  have m: "\<not> S_ISDIR (0x8180 :: 32 word)" "S_ISREG (0x8180 :: 32 word)"
    "(0x8180 :: 32 word) AND S_IRUSR \<noteq> 0"
    by (simp_all add: S_ISDIR_def S_ISREG_def S_IRUSR_def)
  have "handle_request std_macros cfg0 sys0 Map.empty
      (request0 (''GET /secret.txt HTTP/1.0'' @ [CR, LF, CR, LF])) =
    handle_file_request std_macros cfg0 sys0
      ((request0 [])\<lparr>rmethod := ''GET'', uri := ''/secret.txt'', query := [],
                       path := Some ''/srv/www/secret.txt''\<rparr>)"
    using example_secret_request p s x m by (simp add: handle_request_def)
  with f show ?thesis by simp
qed

section \<open>Readable files\<close>

lemma example_shared_request:
  "parse_request std_macros (request0 (''GET /shared.txt HTTP/1.0'' @ [CR, LF, CR, LF]))
     = Inr (0, (request0 [])\<lparr>rmethod := ''GET'', uri := ''/shared.txt'', query := []\<rparr>)"
proof -
  have 1: "parse_request_method std_macros (request0 (''GET /shared.txt HTTP/1.0'' @ [CR, LF, CR, LF]))
     = Inr (0, (request0 [CR, LF])\<lparr>rmethod := ''GET'', uri := ''/shared.txt'', query := []\<rparr>)"
    using fgets_line [of "''GET /shared.txt HTTP/1.0'' @ [CR]" 8192 "[CR, LF]"]
    by (simp add: parse_request_method_def std_macros_def request0_def c_str_def strtok_def)
  have "parse_request_headers_loop std_macros [CR, LF] [] = (Some [], [])"
    using loop_step [of "[CR]" std_macros "[]" "[]"] by (simp add: std_macros_def c_str_def)
  then have "parse_request_headers std_macros
       ((request0 [CR, LF])\<lparr>rmethod := ''GET'', uri := ''/shared.txt'', query := []\<rparr>)
     = (0, (request0 [])\<lparr>rmethod := ''GET'', uri := ''/shared.txt'', query := []\<rparr>)"
    by (simp add: parse_request_headers_def request0_def)
  then show ?thesis
    using 1 by (simp add: parse_request_def)
qed

text \<open>
  Claim C2 fails on the code. The claim sends a regular file that is not executable but
  readable to the static-file handler, and an unreadable one to
  \<open>HTTP_STATUS_INTERNAL_SERVER_ERROR\<close>. The code, under the comment \<open>if readable\<close>, tests
  the read bit of the owner in \<open>st_mode\<close>, not what the process may read (the branch
  before it asks \<open>access\<close>). So \<open>shared.txt\<close>, of mode 0044, which the process opens, is
  answered with \<open>HTTP_STATUS_INTERNAL_SERVER_ERROR\<close>; and \<open>secret.txt\<close>, of mode 0600,
  which the process cannot open, is handed to \<open>handle_file_request\<close>.
\<close>

theorem owner_read_bit_decides:
  "stat sys1 ''/srv/www/shared.txt'' = Some 0x8024 \<and>
   \<not> access_X_OK sys1 ''/srv/www/shared.txt'' \<and>
   fopen sys1 ''/srv/www/shared.txt'' = Some (''shared'' @ [LF]) \<and>
   map_sum id fst
     (handle_request std_macros cfg0 sys1 Map.empty
        (request0 (''GET /shared.txt HTTP/1.0'' @ [CR, LF, CR, LF])))
     = Inr HTTP_STATUS_INTERNAL_SERVER_ERROR \<and>
   stat sys0 ''/srv/www/secret.txt'' = Some 0x8180 \<and>
   fopen sys0 ''/srv/www/secret.txt'' = None \<and>
   handle_request std_macros cfg0 sys0 Map.empty
      (request0 (''GET /secret.txt HTTP/1.0'' @ [CR, LF, CR, LF])) =
     handle_file_request std_macros cfg0 sys0
       ((request0 [])\<lparr>rmethod := ''GET'', uri := ''/secret.txt'', query := [],
                        path := Some ''/srv/www/secret.txt''\<rparr>)"
proof -
  have p1: "determine_request_path std_macros cfg0 sys1 ''/shared.txt''
              = Some ''/srv/www/shared.txt''"
    by (simp add: determine_request_path_def std_macros_def cfg0_def sys1_def snprintf_def
        strncmp_eq_def)
  have s1: "stat sys1 ''/srv/www/shared.txt'' = Some 0x8024" by (simp add: sys1_def)
  have x1: "\<not> access_X_OK sys1 ''/srv/www/shared.txt''" by (simp add: sys1_def sys0_def)
  have o1: "fopen sys1 ''/srv/www/shared.txt'' = Some (''shared'' @ [LF])"
    by (simp add: sys1_def)
  have m1: "\<not> S_ISDIR (0x8024 :: 32 word)" "S_ISREG (0x8024 :: 32 word)"
    "(0x8024 :: 32 word) AND S_IRUSR = 0"
    by (simp_all add: S_ISDIR_def S_ISREG_def S_IRUSR_def)
  have "handle_request std_macros cfg0 sys1 Map.empty
      (request0 (''GET /shared.txt HTTP/1.0'' @ [CR, LF, CR, LF])) =
    Inr (handle_error std_macros sys1
      ((request0 [])\<lparr>rmethod := ''GET'', uri := ''/shared.txt'', query := [],
                       path := Some ''/srv/www/shared.txt''\<rparr>)
      HTTP_STATUS_INTERNAL_SERVER_ERROR)"
    using example_shared_request p1 s1 x1 m1 by (simp add: handle_request_def)
  then have r1: "map_sum id fst
     (handle_request std_macros cfg0 sys1 Map.empty
        (request0 (''GET /shared.txt HTTP/1.0'' @ [CR, LF, CR, LF])))
     = Inr HTTP_STATUS_INTERNAL_SERVER_ERROR"
    by (simp add: handle_error_status)
  have p0: "determine_request_path std_macros cfg0 sys0 ''/secret.txt''
              = Some ''/srv/www/secret.txt''"
    by (simp add: determine_request_path_def std_macros_def cfg0_def sys0_def snprintf_def
        strncmp_eq_def)
  have s0: "stat sys0 ''/srv/www/secret.txt'' = Some 0x8180" by (simp add: sys0_def)
  have x0: "\<not> access_X_OK sys0 ''/srv/www/secret.txt''" by (simp add: sys0_def)
  have o0: "fopen sys0 ''/srv/www/secret.txt'' = None" by (simp add: sys0_def)
  have m0: "\<not> S_ISDIR (0x8180 :: 32 word)" "S_ISREG (0x8180 :: 32 word)"
    "(0x8180 :: 32 word) AND S_IRUSR \<noteq> 0"
    by (simp_all add: S_ISDIR_def S_ISREG_def S_IRUSR_def)
  have r0: "handle_request std_macros cfg0 sys0 Map.empty
      (request0 (''GET /secret.txt HTTP/1.0'' @ [CR, LF, CR, LF])) =
    handle_file_request std_macros cfg0 sys0
      ((request0 [])\<lparr>rmethod := ''GET'', uri := ''/secret.txt'', query := [],
                       path := Some ''/srv/www/secret.txt''\<rparr>)"
    using example_secret_request p0 s0 x0 m0 by (simp add: handle_request_def)
  from s1 x1 o1 r1 s0 o0 r0 show ?thesis by blast
qed

end
